theory Spec2Isabelle
  imports Main "HOL-Library.Word"
begin

section \<open>SigilWire: an emoji transcoder (src/SigilWire.py)\<close>

text \<open>
  The program maps text to a stream of emoji and back, in two modes: a 16-symbol alphabet
  with one symbol per hex digit, and a 64-symbol alphabet (plus one padding symbol) over
  standard base-64. This theory embeds the alphabet tables, the four codec functions, the two
  detector predicates and the decode dispatch of the command line and of the window.

  A Python \<open>str\<close> is a sequence of code points, a \<open>bytes\<close> object a sequence of octets. The
  one-character strings that the source uses as hex digits and base-64 characters are ASCII
  and are modelled as HOL characters.
\<close>

type_synonym codepoint = nat
type_synonym str = "codepoint list"
type_synonym byte = "8 word"

subsection \<open>The library functions the codec calls\<close>

text \<open>
  \<open>str.isspace\<close>: true iff the string has at least one character and all of them are
  whitespace; the whitespace code points are those of CPython's Unicode database.
\<close>

definition isspace_cp :: "codepoint \<Rightarrow> bool" where
  "isspace_cp c \<longleftrightarrow>
     (0x9 \<le> c \<and> c \<le> 0xD) \<or> (0x1C \<le> c \<and> c \<le> 0x20) \<or> c = 0x85 \<or> c = 0xA0 \<or>
     c = 0x1680 \<or> (0x2000 \<le> c \<and> c \<le> 0x200A) \<or> c = 0x2028 \<or> c = 0x2029 \<or>
     c = 0x202F \<or> c = 0x205F \<or> c = 0x3000"

definition isspace :: "str \<Rightarrow> bool" where
  "isspace s \<longleftrightarrow> s \<noteq> [] \<and> list_all isspace_cp s"

text \<open>The exceptions that the library calls of the codec can raise.\<close>

datatype py_exception =
  UnicodeEncodeError | UnicodeDecodeError | BinasciiError | ValueError | KeyError | LookupError

text \<open>
  \<open>str.encode\<close> and \<open>bytes.decode(errors="strict")\<close>. The codec functions take the name of
  the text encoding as an argument, with default \<open>"utf-8"\<close>, and pass it on to these two
  library functions, which look it up in the codec registry. Four codecs of the standard
  library are modelled in full: \<open>utf-8\<close>, \<open>latin-1\<close>, \<open>ascii\<close> and \<open>raw_unicode_escape\<close>.
  \<open>Codec encode decode\<close> stands for any other name: the two functions are what the name
  selects (for a name that the registry does not know, both raise \<open>LookupError\<close>).

  UTF-8 refuses surrogates when encoding; when decoding it refuses surrogates, overlong
  forms, values above U+10FFFF, stray continuation bytes and truncated sequences.
  \<open>raw_unicode_escape\<close> writes a code point below 256 as one octet and any other as an
  escape: a backslash, then \<open>u\<close> and four hex digits, or \<open>U\<close> and eight. Its decoder reads
  the octets from the left; a backslash followed by \<open>u\<close> or \<open>U\<close> starts an escape, which
  must be complete and at most U+10FFFF, a backslash followed by any other octet stands with
  that octet for themselves, and so does every other octet.
\<close>

datatype encoding =
  Utf8 | Latin1 | Ascii | RawUnicodeEscape
  | Codec "str \<Rightarrow> py_exception + byte list" "byte list \<Rightarrow> py_exception + str"

definition utf8_encode_cp :: "codepoint \<Rightarrow> byte list option" where
  "utf8_encode_cp c =
     (if c < 0x80 then Some [of_nat c]
      else if c < 0x800 then Some [of_nat (0xC0 + c div 64), of_nat (0x80 + c mod 64)]
      else if c < 0x10000 then
        (if 0xD800 \<le> c \<and> c \<le> 0xDFFF then None
         else Some [of_nat (0xE0 + c div 4096), of_nat (0x80 + c div 64 mod 64),
                    of_nat (0x80 + c mod 64)])
      else if c < 0x110000 then
        Some [of_nat (0xF0 + c div 262144), of_nat (0x80 + c div 4096 mod 64),
              of_nat (0x80 + c div 64 mod 64), of_nat (0x80 + c mod 64)]
      else None)"

definition latin1_encode_cp :: "codepoint \<Rightarrow> byte list option" where
  "latin1_encode_cp c = (if c < 0x100 then Some [of_nat c] else None)"

definition ascii_encode_cp :: "codepoint \<Rightarrow> byte list option" where
  "ascii_encode_cp c = (if c < 0x80 then Some [of_nat c] else None)"

definition hexdigit_byte :: "nat \<Rightarrow> byte" where
  "hexdigit_byte n = of_nat (if n < 10 then 0x30 + n else 0x57 + n)"

definition raw_unicode_escape_cp :: "codepoint \<Rightarrow> byte list option" where
  "raw_unicode_escape_cp c =
     (if c < 0x100 then Some [of_nat c]
      else if c < 0x10000 then
        Some [0x5C, 0x75, hexdigit_byte (c div 4096 mod 16), hexdigit_byte (c div 256 mod 16),
              hexdigit_byte (c div 16 mod 16), hexdigit_byte (c mod 16)]
      else if c < 0x110000 then
        Some [0x5C, 0x55, 0x30, 0x30, hexdigit_byte (c div 1048576 mod 16),
              hexdigit_byte (c div 65536 mod 16), hexdigit_byte (c div 4096 mod 16),
              hexdigit_byte (c div 256 mod 16), hexdigit_byte (c div 16 mod 16),
              hexdigit_byte (c mod 16)]
      else None)"

text \<open>An encoder that works code point by code point stops at the first one it refuses.\<close>

fun encode_each :: "(codepoint \<Rightarrow> byte list option) \<Rightarrow> str \<Rightarrow> py_exception + byte list" where
  "encode_each cp [] = Inr []"
| "encode_each cp (c # cs) =
     (case cp c of
        None \<Rightarrow> Inl UnicodeEncodeError
      | Some bs \<Rightarrow> (case encode_each cp cs of Inl e \<Rightarrow> Inl e | Inr r \<Rightarrow> Inr (bs @ r)))"

definition str_encode :: "str \<Rightarrow> encoding \<Rightarrow> py_exception + byte list" where
  "str_encode t enc =
     (case enc of
        Utf8 \<Rightarrow> encode_each utf8_encode_cp t
      | Latin1 \<Rightarrow> encode_each latin1_encode_cp t
      | Ascii \<Rightarrow> encode_each ascii_encode_cp t
      | RawUnicodeEscape \<Rightarrow> encode_each raw_unicode_escape_cp t
      | Codec encode decode \<Rightarrow> encode t)"

definition is_cont :: "byte \<Rightarrow> bool" where
  "is_cont b \<longleftrightarrow> 0x80 \<le> unat b \<and> unat b < 0xC0"

definition cont_bits :: "byte \<Rightarrow> nat" where
  "cont_bits b = unat b - 0x80"

fun utf8_decode :: "byte list \<Rightarrow> str option" where
  "utf8_decode [] = Some []"
| "utf8_decode (b0 # bs) =
     (if unat b0 < 0x80 then map_option ((#) (unat b0)) (utf8_decode bs)
      else if unat b0 < 0xC2 then None
      else if unat b0 < 0xE0 then
        (case bs of
           b1 # r \<Rightarrow>
             if is_cont b1
             then map_option ((#) ((unat b0 - 0xC0) * 64 + cont_bits b1)) (utf8_decode r)
             else None
         | _ \<Rightarrow> None)
      else if unat b0 < 0xF0 then
        (case bs of
           b1 # b2 # r \<Rightarrow>
             (let c = (unat b0 - 0xE0) * 4096 + cont_bits b1 * 64 + cont_bits b2
              in if is_cont b1 \<and> is_cont b2 \<and> 0x800 \<le> c \<and> \<not> (0xD800 \<le> c \<and> c \<le> 0xDFFF)
                 then map_option ((#) c) (utf8_decode r)
                 else None)
         | _ \<Rightarrow> None)
      else if unat b0 < 0xF5 then
        (case bs of
           b1 # b2 # b3 # r \<Rightarrow>
             (let c = (unat b0 - 0xF0) * 262144 + cont_bits b1 * 4096 + cont_bits b2 * 64
                      + cont_bits b3
              in if is_cont b1 \<and> is_cont b2 \<and> is_cont b3 \<and> 0x10000 \<le> c \<and> c < 0x110000
                 then map_option ((#) c) (utf8_decode r)
                 else None)
         | _ \<Rightarrow> None)
      else None)"

fun single_byte_decode :: "nat \<Rightarrow> byte list \<Rightarrow> str option" where
  "single_byte_decode lim [] = Some []"
| "single_byte_decode lim (b # bs) =
     (if unat b < lim then map_option ((#) (unat b)) (single_byte_decode lim bs) else None)"

definition hexdigit_val :: "byte \<Rightarrow> nat option" where
  "hexdigit_val b =
     (let c = unat b
      in if 0x30 \<le> c \<and> c \<le> 0x39 then Some (c - 0x30)
         else if 0x61 \<le> c \<and> c \<le> 0x66 then Some (c - 0x57)
         else if 0x41 \<le> c \<and> c \<le> 0x46 then Some (c - 0x37)
         else None)"

fun hex_number :: "byte list \<Rightarrow> nat \<Rightarrow> nat option" where
  "hex_number [] ch = Some ch"
| "hex_number (d # ds) ch =
     (case hexdigit_val d of None \<Rightarrow> None | Some v \<Rightarrow> hex_number ds (ch * 16 + v))"

fun raw_unicode_escape_decode :: "byte list \<Rightarrow> str option" where
  "raw_unicode_escape_decode [] = Some []"
| "raw_unicode_escape_decode [b] = Some [unat b]"
| "raw_unicode_escape_decode (b # c # r) =
     (if unat b \<noteq> 0x5C then map_option ((#) (unat b)) (raw_unicode_escape_decode (c # r))
      else if unat c = 0x75 then
        (case r of
           d1 # d2 # d3 # d4 # r' \<Rightarrow>
             (case hex_number [d1, d2, d3, d4] 0 of
                None \<Rightarrow> None
              | Some ch \<Rightarrow> map_option ((#) ch) (raw_unicode_escape_decode r'))
         | _ \<Rightarrow> None)
      else if unat c = 0x55 then
        (case r of
           d1 # d2 # d3 # d4 # d5 # d6 # d7 # d8 # r' \<Rightarrow>
             (case hex_number [d1, d2, d3, d4, d5, d6, d7, d8] 0 of
                None \<Rightarrow> None
              | Some ch \<Rightarrow>
                  if 0x10FFFF < ch then None
                  else map_option ((#) ch) (raw_unicode_escape_decode r'))
         | _ \<Rightarrow> None)
      else map_option (\<lambda>t. 0x5C # unat c # t) (raw_unicode_escape_decode r))"

definition strict :: "str option \<Rightarrow> py_exception + str" where
  "strict r = (case r of None \<Rightarrow> Inl UnicodeDecodeError | Some t \<Rightarrow> Inr t)"

definition bytes_decode :: "byte list \<Rightarrow> encoding \<Rightarrow> py_exception + str" where
  "bytes_decode raw enc =
     (case enc of
        Utf8 \<Rightarrow> strict (utf8_decode raw)
      | Latin1 \<Rightarrow> strict (single_byte_decode 0x100 raw)
      | Ascii \<Rightarrow> strict (single_byte_decode 0x80 raw)
      | RawUnicodeEscape \<Rightarrow> strict (raw_unicode_escape_decode raw)
      | Codec encode decode \<Rightarrow> decode raw)"

text \<open>
  \<open>bytes.hex\<close> writes each octet as two lower-case hex digits, high nibble first;
  \<open>bytes.fromhex\<close> reads pairs of hex digits and raises \<open>ValueError\<close> on anything else.
  \<open>format_x i\<close> is the f-string \<open>f"{i:x}"\<close> for \<open>i\<close> below 16.
\<close>

definition hexdigits :: string where
  "hexdigits = ''0123456789abcdef''"

definition format_x :: "nat \<Rightarrow> char" where
  "format_x i = hexdigits ! i"

definition bytes_hex :: "byte list \<Rightarrow> string" where
  "bytes_hex raw = concat (map (\<lambda>b. [format_x (unat b div 16), format_x (unat b mod 16)]) raw)"

definition hexval :: "char \<Rightarrow> nat option" where
  "hexval = map_of (zip ''0123456789abcdef'' [0..<16] @ zip ''ABCDEF'' [10..<16])"

fun bytes_fromhex :: "string \<Rightarrow> py_exception + byte list" where
  "bytes_fromhex [] = Inr []"
| "bytes_fromhex [h] = Inl ValueError"
| "bytes_fromhex (h # l # rest) =
     (case (hexval h, hexval l) of
        (Some a, Some b) \<Rightarrow>
          (case bytes_fromhex rest of Inl e \<Rightarrow> Inl e | Inr r \<Rightarrow> Inr (of_nat (16 * a + b) # r))
      | _ \<Rightarrow> Inl ValueError)"

subsection \<open>Alphabets\<close>

text \<open>
  A dict comprehension inserts its items in order, a later item replacing an earlier one
  with the same key.
\<close>

definition dict_of :: "('k \<times> 'v) list \<Rightarrow> ('k \<rightharpoonup> 'v)" where
  "dict_of items = fold (\<lambda>(k, v) m. m(k \<mapsto> v)) items Map.empty"

definition HEX_EMOJI_16 :: "str list" where
  "HEX_EMOJI_16 =
     [[0x1F600], [0x1F601], [0x1F602], [0x1F603], [0x1F604], [0x1F605], [0x1F606], [0x1F609],
      [0x1F60A], [0x1F642], [0x1F643], [0x1F60B], [0x1F60E], [0x1F60D], [0x1F618], [0x1F617]]"

definition HEX_MAP_items :: "(char \<times> str) list" where
  "HEX_MAP_items = map (\<lambda>i. (format_x i, HEX_EMOJI_16 ! i)) [0..<16]"

definition HEX_MAP :: "char \<rightharpoonup> str" where
  "HEX_MAP = dict_of HEX_MAP_items"

definition REV_HEX_MAP :: "str \<rightharpoonup> char" where
  "REV_HEX_MAP = dict_of (map (\<lambda>(k, v). (v, k)) HEX_MAP_items)"

definition BASE64_EMOJI_64 :: "str list" where
  "BASE64_EMOJI_64 =
     [[0x1F600], [0x1F601], [0x1F602], [0x1F603], [0x1F604], [0x1F605], [0x1F606], [0x1F609],
      [0x1F60A], [0x1F642], [0x1F643], [0x1F60B], [0x1F60E], [0x1F60D], [0x1F618], [0x1F617],
      [0x1F619], [0x1F61A], [0x1F970], [0x1F929], [0x1F917], [0x1F914], [0x1F928], [0x1F610],
      [0x1F611], [0x1F636], [0x1F644], [0x1F60F], [0x1F623], [0x1F625], [0x1F62E], [0x1F910],
      [0x1F62A], [0x1F62B], [0x1F971], [0x1F634], [0x1F60C], [0x1F61B], [0x1F61C], [0x1F92A],
      [0x1F61D], [0x1F917], [0x1F92D], [0x1F92B], [0x1F925], [0x1F62C], [0x1F614], [0x1F615],
      [0x1F641], [0x2639, 0xFE0F], [0x1F61F], [0x1F624], [0x1F622], [0x1F62D], [0x1F631], [0x1F628],
      [0x1F630], [0x1F62F], [0x1F632], [0x1F92F], [0x1F634], [0x1F60C], [0x1F608], [0x1F47B]]"

definition PADDING_EMOJI :: str where
  "PADDING_EMOJI = [0x1F7E6]"

definition B64_STD :: string where
  "B64_STD = ''ABCDEFGHIJKLMNOPQRSTUVWXYZabcdefghijklmnopqrstuvwxyz0123456789+/''"

definition B64_TO_EMOJI :: "char \<rightharpoonup> str" where
  "B64_TO_EMOJI = dict_of (map (\<lambda>i. (B64_STD ! i, BASE64_EMOJI_64 ! i)) [0..<64])"

definition EMOJI_TO_B64 :: "str \<rightharpoonup> char" where
  "EMOJI_TO_B64 = dict_of (map (\<lambda>i. (BASE64_EMOJI_64 ! i, B64_STD ! i)) [0..<64])"

subsection \<open>The result envelope\<close>

text \<open>
  The \<open>error\<close> field of a \<open>CodecResult\<close> is a message. The model keeps the part of each
  message that the program computes: which of its message formats it is, and the unit or
  the exception it was built from. \<open>Str e\<close> is \<open>str(e)\<close>.
\<close>

datatype message =
  NoMessage
  | UnknownHexEmoji str
  | OddLengthHex
  | Str py_exception
  | UnknownB64Emoji str
  | Base64DecodeError py_exception

record CodecResult =
  ok :: bool
  data :: str
  error :: message

subsection \<open>The hex codec\<close>

fun lookup_all :: "('k \<rightharpoonup> 'v) \<Rightarrow> 'k list \<Rightarrow> py_exception + 'v list" where
  "lookup_all m [] = Inr []"
| "lookup_all m (k # ks) =
     (case m k of
        None \<Rightarrow> Inl KeyError
      | Some v \<Rightarrow> (case lookup_all m ks of Inl e \<Rightarrow> Inl e | Inr vs \<Rightarrow> Inr (v # vs)))"

definition encode_hex_emoji :: "str \<Rightarrow> encoding \<Rightarrow> CodecResult" where
  "encode_hex_emoji txt enc =
     (case str_encode txt enc of
        Inl e \<Rightarrow> \<lparr>ok = False, data = [], error = Str e\<rparr>
      | Inr raw \<Rightarrow>
          (let hexstr = bytes_hex raw
           in case lookup_all HEX_MAP hexstr of
                Inl e \<Rightarrow> \<lparr>ok = False, data = [], error = Str e\<rparr>
              | Inr out \<Rightarrow> \<lparr>ok = True, data = concat out, error = NoMessage\<rparr>))"

text \<open>
  The loop of \<open>decode_hex_emoji\<close> over the code points of the input: \<open>Inl\<close> is the early
  return with a failure, \<open>Inr\<close> the list \<open>nibbles\<close> when the loop ends.
\<close>

fun hex_loop :: "str \<Rightarrow> string \<Rightarrow> message + string" where
  "hex_loop [] nibbles = Inr nibbles"
| "hex_loop (c # rest) nibbles =
     (case REV_HEX_MAP [c] of
        Some h \<Rightarrow> hex_loop rest (nibbles @ [h])
      | None \<Rightarrow>
          if isspace [c] then hex_loop rest nibbles
          else Inl (UnknownHexEmoji [c]))"

definition decode_hex_emoji :: "str \<Rightarrow> encoding \<Rightarrow> CodecResult" where
  "decode_hex_emoji emoji_text enc =
     (case hex_loop emoji_text [] of
        Inl msg \<Rightarrow> \<lparr>ok = False, data = [], error = msg\<rparr>
      | Inr hexstr \<Rightarrow>
          if length hexstr mod 2 \<noteq> 0 then \<lparr>ok = False, data = [], error = OddLengthHex\<rparr>
          else
            (case bytes_fromhex hexstr of
               Inl e \<Rightarrow> \<lparr>ok = False, data = [], error = Str e\<rparr>
             | Inr raw \<Rightarrow>
                 (case bytes_decode raw enc of
                    Inl e \<Rightarrow> \<lparr>ok = False, data = [], error = Str e\<rparr>
                  | Inr t \<Rightarrow> \<lparr>ok = True, data = t, error = NoMessage\<rparr>)))"

text \<open>
  \<open>base64.b64encode\<close>: three octets become four characters of \<open>B64_STD\<close>, a last group
  of one or two octets is padded with \<open>=\<close>.
\<close>

fun b64encode :: "byte list \<Rightarrow> string" where
  "b64encode [] = []"
| "b64encode [a] =
     (let x = unat a
      in [B64_STD ! (x div 4), B64_STD ! (x mod 4 * 16), CHR ''='', CHR ''=''])"
| "b64encode [a, b] =
     (let x = unat a; y = unat b
      in [B64_STD ! (x div 4), B64_STD ! (x mod 4 * 16 + y div 16), B64_STD ! (y mod 16 * 4),
          CHR ''=''])"
| "b64encode (a # b # c # rest) =
     (let x = unat a; y = unat b; z = unat c
      in [B64_STD ! (x div 4), B64_STD ! (x mod 4 * 16 + y div 16),
          B64_STD ! (y mod 16 * 4 + z div 64), B64_STD ! (z mod 64)] @ b64encode rest)"

text \<open>
  \<open>base64.b64decode(s, validate=True)\<close> is \<open>binascii.a2b_base64\<close> in strict mode, a scan
  with the state \<open>quad_pos\<close>, \<open>leftchar\<close>, \<open>pads\<close>, \<open>padding_started\<close> (CPython 3.11). It
  raises \<open>binascii.Error\<close> on a character outside the alphabet, on leading padding, on data
  after or inside the padding, and on a last group that is not complete.
\<close>

definition b64val :: "char \<Rightarrow> nat option" where
  "b64val = map_of (zip B64_STD [0..<64])"

fun a2b_loop ::
  "string \<Rightarrow> nat \<Rightarrow> nat \<Rightarrow> nat \<Rightarrow> bool \<Rightarrow> byte list \<Rightarrow> py_exception + byte list" where
  "a2b_loop [] quad_pos leftchar pads started out =
     (if quad_pos \<noteq> 0 then Inl BinasciiError else Inr out)"
| "a2b_loop (ch # rest) quad_pos leftchar pads started out =
     (if ch = CHR ''='' then
        (if 2 \<le> quad_pos \<and> 4 \<le> quad_pos + (pads + 1)
         then (if rest \<noteq> [] then Inl BinasciiError else Inr out)
         else a2b_loop rest quad_pos leftchar (if 2 \<le> quad_pos then pads + 1 else pads) True out)
      else
        (case b64val ch of
           None \<Rightarrow> Inl BinasciiError
         | Some v \<Rightarrow>
             if started then Inl BinasciiError
             else if quad_pos = 0 then a2b_loop rest 1 v 0 started out
             else if quad_pos = 1 then
               a2b_loop rest 2 (v mod 16) 0 started (out @ [of_nat (leftchar * 4 + v div 16)])
             else if quad_pos = 2 then
               a2b_loop rest 3 (v mod 4) 0 started (out @ [of_nat (leftchar * 16 + v div 4)])
             else a2b_loop rest 0 0 0 started (out @ [of_nat (leftchar * 64 + v)])))"

definition b64decode :: "string \<Rightarrow> py_exception + byte list" where
  "b64decode s =
     (case s of
        ch # _ \<Rightarrow> if ch = CHR ''='' then Inl BinasciiError else a2b_loop s 0 0 0 False []
      | [] \<Rightarrow> a2b_loop s 0 0 0 False [])"

subsection \<open>The base-64 codec\<close>

text \<open>The loop of \<open>encode_b64_emoji\<close> over the characters of the base-64 string.\<close>

fun b64_symbols :: "string \<Rightarrow> py_exception + str list" where
  "b64_symbols [] = Inr []"
| "b64_symbols (ch # rest) =
     (if ch = CHR ''='' then
        (case b64_symbols rest of Inl e \<Rightarrow> Inl e | Inr out \<Rightarrow> Inr (PADDING_EMOJI # out))
      else
        (case B64_TO_EMOJI ch of
           None \<Rightarrow> Inl KeyError
         | Some emo \<Rightarrow>
             (case b64_symbols rest of Inl e \<Rightarrow> Inl e | Inr out \<Rightarrow> Inr (emo # out))))"

definition encode_b64_emoji :: "str \<Rightarrow> encoding \<Rightarrow> CodecResult" where
  "encode_b64_emoji txt enc =
     (case str_encode txt enc of
        Inl e \<Rightarrow> \<lparr>ok = False, data = [], error = Str e\<rparr>
      | Inr raw \<Rightarrow>
          (case b64_symbols (b64encode raw) of
             Inl e \<Rightarrow> \<lparr>ok = False, data = [], error = Str e\<rparr>
           | Inr out \<Rightarrow> \<lparr>ok = True, data = concat out, error = NoMessage\<rparr>))"

text \<open>
  The body of the loop of \<open>decode_b64_emoji\<close> after the unit \<open>ch\<close> has been chosen:
  \<open>Inr\<close> is the list \<open>chars\<close> with which the loop goes on, \<open>Inl\<close> the early return.
\<close>

definition b64_unit :: "str \<Rightarrow> string \<Rightarrow> message + string" where
  "b64_unit ch chars =
     (if isspace ch then Inr chars
      else if ch = PADDING_EMOJI then Inr (chars @ [CHR ''=''])
      else
        (case EMOJI_TO_B64 ch of
           Some x \<Rightarrow> Inr (chars @ [x])
         | None \<Rightarrow> Inl (UnknownB64Emoji ch)))"

text \<open>
  The loop itself, on the rest of the input from position \<open>i\<close>: a window of two code points
  is tried first when two are left, and taken when it is a key of \<open>EMOJI_TO_B64\<close> or the
  padding symbol; otherwise the unit is the code point at \<open>i\<close>.
\<close>

fun b64_loop :: "str \<Rightarrow> string \<Rightarrow> message + string" where
  "b64_loop [] chars = Inr chars"
| "b64_loop [c] chars =
     (case b64_unit [c] chars of Inl msg \<Rightarrow> Inl msg | Inr chars' \<Rightarrow> b64_loop [] chars')"
| "b64_loop (c # d # rest) chars =
     (if [c, d] \<in> dom EMOJI_TO_B64 \<or> [c, d] = PADDING_EMOJI then
        (case b64_unit [c, d] chars of Inl msg \<Rightarrow> Inl msg | Inr chars' \<Rightarrow> b64_loop rest chars')
      else
        (case b64_unit [c] chars of
           Inl msg \<Rightarrow> Inl msg
         | Inr chars' \<Rightarrow> b64_loop (d # rest) chars'))"

definition decode_b64_emoji :: "str \<Rightarrow> encoding \<Rightarrow> CodecResult" where
  "decode_b64_emoji emoji_text enc =
     (case b64_loop emoji_text [] of
        Inl msg \<Rightarrow> \<lparr>ok = False, data = [], error = msg\<rparr>
      | Inr b64 \<Rightarrow>
          (case b64decode b64 of
             Inl e \<Rightarrow> \<lparr>ok = False, data = [], error = Base64DecodeError e\<rparr>
           | Inr raw \<Rightarrow>
               (case bytes_decode raw enc of
                  Inl e \<Rightarrow> \<lparr>ok = False, data = [], error = Base64DecodeError e\<rparr>
                | Inr t \<Rightarrow> \<lparr>ok = True, data = t, error = NoMessage\<rparr>)))"

subsection \<open>The detector predicates\<close>

definition looks_like_hex_emoji :: "str \<Rightarrow> bool" where
  "looks_like_hex_emoji s \<longleftrightarrow>
     list_all (\<lambda>ch. [ch] \<in> dom REV_HEX_MAP \<or> isspace [ch]) s \<and>
     list_ex (\<lambda>ch. [ch] \<in> dom REV_HEX_MAP) s"

definition looks_like_b64_emoji :: "str \<Rightarrow> bool" where
  "looks_like_b64_emoji s \<longleftrightarrow>
     (let emoji_set = set (BASE64_EMOJI_64 @ [PADDING_EMOJI])
      in list_all (\<lambda>ch. [ch] \<in> emoji_set \<or> isspace [ch]) s \<and>
         list_ex (\<lambda>ch. [ch] \<in> emoji_set) s)"

subsection \<open>The command line\<close>

text \<open>
  \<open>run_cli\<close> after argument parsing and after the input has been read: the flags
  \<open>--encode\<close>, \<open>--decode\<close> and \<open>--mode\<close>, and the input text. It returns the exit status and
  what is written: the payload to the output, or the message to the standard error.
  Without a direction the window is launched.
\<close>

datatype mode = Hex | B64

record cli_args =
  encode :: bool
  decode :: bool
  mode :: mode

datatype cli_output = Written str | ErrorLine message | LaunchGui

definition run_cli :: "cli_args \<Rightarrow> str \<Rightarrow> int \<times> cli_output" where
  "run_cli args inp =
     (if \<not> (encode args \<or> decode args) then (0, LaunchGui)
      else
        (let res =
           (if encode args then
              (if mode args = Hex then encode_hex_emoji inp Utf8 else encode_b64_emoji inp Utf8)
            else if mode args = Hex \<and> looks_like_b64_emoji inp then decode_b64_emoji inp Utf8
            else if mode args = B64 \<and> looks_like_hex_emoji inp then decode_hex_emoji inp Utf8
            else if mode args = Hex then decode_hex_emoji inp Utf8
            else decode_b64_emoji inp Utf8)
         in if \<not> ok res then (2, ErrorLine (error res)) else (0, Written (data res))))"

subsection \<open>The window\<close>

text \<open>
  The state of \<open>EmojiCodecApp\<close> that its actions read and write: the two radio-button
  variables, the contents of the two text panes and the status line. A Tk text widget
  returns its contents followed by a newline for the range \<open>"1.0"\<close> to \<open>"end"\<close>.
\<close>

datatype direction = Encode | Decode

datatype status =
  Ready | InputEmpty | SuccessStatus | ErrorStatus message | NothingToDetect | CannotDetect

record app =
  app_mode :: mode
  app_direction :: direction
  input_text :: str
  output_text :: str
  status :: status

definition input_get :: "app \<Rightarrow> str" where
  "input_get a = input_text a @ [0xA]"

definition rstrip_newline :: "str \<Rightarrow> str" where
  "rstrip_newline s = rev (dropWhile (\<lambda>c. c = 0xA) (rev s))"

definition strip :: "str \<Rightarrow> str" where
  "strip s = rev (dropWhile isspace_cp (rev (dropWhile isspace_cp s)))"

definition run :: "app \<Rightarrow> app" where
  "run a =
     (let txt = rstrip_newline (input_get a)
      in if txt = [] then a\<lparr>status := InputEmpty, output_text := []\<rparr>
         else
           (let res =
              (if app_direction a = Encode then
                 (if app_mode a = Hex then encode_hex_emoji txt Utf8
                  else encode_b64_emoji txt Utf8)
               else
                 (if app_mode a = Hex then decode_hex_emoji txt Utf8
                  else decode_b64_emoji txt Utf8))
            in if ok res then a\<lparr>output_text := data res, status := SuccessStatus\<rparr>
               else a\<lparr>output_text := [], status := ErrorStatus (error res)\<rparr>))"

definition auto_detect_decode :: "app \<Rightarrow> app" where
  "auto_detect_decode a =
     (let txt = strip (input_get a)
      in if txt = [] then a\<lparr>status := NothingToDetect\<rparr>
         else if looks_like_hex_emoji txt then run (a\<lparr>app_mode := Hex, app_direction := Decode\<rparr>)
         else if looks_like_b64_emoji txt then run (a\<lparr>app_mode := B64, app_direction := Decode\<rparr>)
         else a\<lparr>status := CannotDetect\<rparr>)"

subsection \<open>Notions used to state the properties\<close>

text \<open>
  The tokenizer as the specification words it: at each position the longest known symbol
  is matched, a window of two code points before a window of one; a code point that starts
  no known symbol is a unit of its own. The known symbols of the base-64 scheme are the 64
  entries of the alphabet and the padding symbol.
\<close>

fun spec_units :: "str \<Rightarrow> str list" where
  "spec_units [] = []"
| "spec_units [c] = [[c]]"
| "spec_units (c # d # rest) =
     (if [c, d] \<in> set (BASE64_EMOJI_64 @ [PADDING_EMOJI]) then [c, d] # spec_units rest
      else [c] # spec_units (d # rest))"

text \<open>
  \<open>weave gaps syms\<close> is the stream of the symbols \<open>syms\<close> with the \<open>n\<close>-th string of
  \<open>gaps\<close> inserted before the \<open>n\<close>-th symbol, and what is left of \<open>gaps\<close> after the last.
\<close>

fun weave :: "str list \<Rightarrow> str list \<Rightarrow> str" where
  "weave [] syms = concat syms"
| "weave gaps [] = concat gaps"
| "weave (g # gaps) (s # syms) = g @ s @ weave gaps syms"

section \<open>Octets and text encodings\<close>

lemma unat_byte: "x < 256 \<Longrightarrow> unat (of_nat x :: byte) = x"
  by (simp add: unat_of_nat)

lemma div_lt: "(c::nat) < k * n \<Longrightarrow> c div n < k"
  by (rule less_mult_imp_div_less)

lemma div_ge: "k * n \<le> (c::nat) \<Longrightarrow> 0 < n \<Longrightarrow> k \<le> c div n"
  by (simp add: less_eq_div_iff_mult_less_eq)

lemma scale64: "(q::nat) div 64 * (64 * k) + q mod 64 * k = q * k"
proof -
  have "q * k = (q div 64 * 64 + q mod 64) * k" by simp
  also have "\<dots> = q div 64 * (64 * k) + q mod 64 * k" by (simp only: add_mult_distrib mult.assoc)
  finally show ?thesis by simp
qed

lemma split3: "(c::nat) div 4096 * 4096 + c div 64 mod 64 * 64 + c mod 64 = c"
proof -
  define q where "q = c div 64"
  have a: "c div 4096 = q div 64" by (simp add: q_def div_mult2_eq)
  have "q div 64 * 4096 + q mod 64 * 64 = q * 64" using scale64[of q 64] by simp
  then have "q div 64 * 4096 + q mod 64 * 64 + c mod 64 = q * 64 + c mod 64" by simp
  also have "\<dots> = c" by (simp add: q_def)
  finally show ?thesis by (simp add: a q_def)
qed

lemma split4: "(c::nat) div 262144 * 262144 + c div 4096 mod 64 * 4096 + c div 64 mod 64 * 64 + c mod 64 = c"
proof -
  define r where "r = c div 4096"
  have a: "c div 262144 = r div 64" by (simp add: r_def div_mult2_eq)
  have "r div 64 * 262144 + r mod 64 * 4096 = r * 4096" using scale64[of r 4096] by simp
  then have "r div 64 * 262144 + r mod 64 * 4096 + c div 64 mod 64 * 64 + c mod 64
      = r * 4096 + c div 64 mod 64 * 64 + c mod 64" by simp
  also have "\<dots> = c" using split3[of c] by (simp add: r_def)
  finally show ?thesis by (simp add: a r_def)
qed

lemma utf8_1: 
  assumes "c < 0x80"
  shows "utf8_decode (of_nat c # rest) = map_option ((#) c) (utf8_decode rest)"
proof -
  have "unat (of_nat c :: byte) = c" using assms by (simp add: unat_byte)
  then show ?thesis using assms by simp
qed

lemma utf8_2:
  assumes "0x80 \<le> c" "c < 0x800"
  shows "utf8_decode (of_nat (0xC0 + c div 64) # of_nat (0x80 + c mod 64) # rest) = map_option ((#) c) (utf8_decode rest)"
proof -
  have d: "2 \<le> c div 64" "c div 64 < 32" using assms by (simp_all add: div_ge div_lt)
  have b0: "unat (of_nat (0xC0 + c div 64) :: byte) = 0xC0 + c div 64" using d by (simp add: unat_byte del: of_nat_add of_nat_numeral)
  have b1: "unat (of_nat (0x80 + c mod 64) :: byte) = 0x80 + c mod 64" by (simp add: unat_byte del: of_nat_add of_nat_numeral)
  show ?thesis using d by (simp add: b0 b1 is_cont_def cont_bits_def del: of_nat_add of_nat_numeral)
qed

lemma utf8_3:
  assumes "0x800 \<le> c" "c < 0x10000" "\<not> (0xD800 \<le> c \<and> c \<le> 0xDFFF)"
  shows "utf8_decode (of_nat (0xE0 + c div 4096) # of_nat (0x80 + c div 64 mod 64) # of_nat (0x80 + c mod 64) # rest)
     = map_option ((#) c) (utf8_decode rest)"
proof -
  have d: "c div 4096 < 16" using assms by (simp add: div_lt)
  have b0: "unat (of_nat (0xE0 + c div 4096) :: byte) = 0xE0 + c div 4096" using d by (simp add: unat_byte del: of_nat_add of_nat_numeral)
  have b1: "unat (of_nat (0x80 + c div 64 mod 64) :: byte) = 0x80 + c div 64 mod 64" by (simp add: unat_byte del: of_nat_add of_nat_numeral)
  have b2: "unat (of_nat (0x80 + c mod 64) :: byte) = 0x80 + c mod 64" by (simp add: unat_byte del: of_nat_add of_nat_numeral)
  show ?thesis using d assms by (simp add: b0 b1 b2 is_cont_def cont_bits_def split3 del: of_nat_add of_nat_numeral)
qed

lemma utf8_4:
  assumes "0x10000 \<le> c" "c < 0x110000"
  shows "utf8_decode (of_nat (0xF0 + c div 262144) # of_nat (0x80 + c div 4096 mod 64) # of_nat (0x80 + c div 64 mod 64) # of_nat (0x80 + c mod 64) # rest)
     = map_option ((#) c) (utf8_decode rest)"
proof -
  have d: "c div 262144 < 5" using assms by (simp add: div_lt)
  have b0: "unat (of_nat (0xF0 + c div 262144) :: byte) = 0xF0 + c div 262144" using d by (simp add: unat_byte del: of_nat_add of_nat_numeral)
  have b1: "unat (of_nat (0x80 + c div 4096 mod 64) :: byte) = 0x80 + c div 4096 mod 64" by (simp add: unat_byte del: of_nat_add of_nat_numeral)
  have b2: "unat (of_nat (0x80 + c div 64 mod 64) :: byte) = 0x80 + c div 64 mod 64" by (simp add: unat_byte del: of_nat_add of_nat_numeral)
  have b3: "unat (of_nat (0x80 + c mod 64) :: byte) = 0x80 + c mod 64" by (simp add: unat_byte del: of_nat_add of_nat_numeral)
  show ?thesis using d assms by (simp add: b0 b1 b2 b3 is_cont_def cont_bits_def split4 del: of_nat_add of_nat_numeral)
qed

lemma utf8_decode_encode_cp:
  "utf8_encode_cp c = Some bs \<Longrightarrow> utf8_decode (bs @ rest) = map_option ((#) c) (utf8_decode rest)"
  unfolding utf8_encode_cp_def
  by (auto simp del: utf8_decode.simps of_nat_add of_nat_numeral simp add: utf8_1 utf8_2 utf8_3 utf8_4 split: if_splits)


section \<open>The hex codec\<close>

lemma upt16: "[0..<16] = [0,1,2,3,4,5,6,7,8,9,10,11,12,13,14,15]"
  by code_simp

lemma nibble_cases:
  "i < (16::nat) \<Longrightarrow> i \<in> {0, 1, 2, 3, 4, 5, 6, 7, 8, 9, 10, 11, 12, 13, 14, 15}"
proof -
  assume "i < 16"
  then have "i \<in> set [0..<16]" by simp
  then show ?thesis unfolding upt16 by simp
qed

lemma HEX_MAP_items_eq: "HEX_MAP_items = zip hexdigits HEX_EMOJI_16"
  by (simp add: HEX_MAP_items_def format_x_def hexdigits_def HEX_EMOJI_16_def upt16)

lemmas hex_tables = HEX_MAP_def REV_HEX_MAP_def HEX_MAP_items_eq dict_of_def hexdigits_def
  HEX_EMOJI_16_def format_x_def

lemma HEX_MAP_format_x: "i < 16 \<Longrightarrow> HEX_MAP (format_x i) = Some (HEX_EMOJI_16 ! i)"
  by (drule nibble_cases) (elim insertE emptyE; simp add: hex_tables)

lemma REV_HEX_MAP_nth: "i < 16 \<Longrightarrow> REV_HEX_MAP (HEX_EMOJI_16 ! i) = Some (format_x i)"
  by (drule nibble_cases) (elim insertE emptyE; simp add: hex_tables)

lemma HEX_EMOJI_16_single: "i < 16 \<Longrightarrow> \<exists>c. HEX_EMOJI_16 ! i = [c]"
  by (drule nibble_cases) (elim insertE emptyE; simp add: hex_tables)

lemma hexval_format_x: "i < 16 \<Longrightarrow> hexval (format_x i) = Some i"
  by (drule nibble_cases) (elim insertE emptyE; simp add: hexval_def upt16 format_x_def hexdigits_def)

lemma unat_byte_lt: "unat (b::byte) < 256"
  using unsigned_less[of b, where ?'a = nat] by simp

lemma high_nibble_lt: "unat (b::byte) div 16 < 16"
  using unat_byte_lt[of b] by (simp add: div_lt)

lemma lookup_all_hex:
  "lookup_all HEX_MAP (bytes_hex raw) =
     Inr (concat (map (\<lambda>b. [HEX_EMOJI_16 ! (unat b div 16), HEX_EMOJI_16 ! (unat b mod 16)]) raw))"
proof (induction raw)
  case Nil
  show ?case by (simp add: bytes_hex_def)
next
  case (Cons b raw)
  have hi: "unat b div 16 < 16" by (rule high_nibble_lt)
  have lo: "unat b mod 16 < 16" by simp
  show ?case using Cons
    by (simp add: bytes_hex_def HEX_MAP_format_x[OF hi] HEX_MAP_format_x[OF lo])
qed

lemma hex_loop_symbol:
  assumes "i < 16"
  shows "hex_loop (HEX_EMOJI_16 ! i @ rest) nibbles = hex_loop rest (nibbles @ [format_x i])"
proof -
  obtain c where c: "HEX_EMOJI_16 ! i = [c]"
    using HEX_EMOJI_16_single[OF assms] by blast
  have "REV_HEX_MAP [c] = Some (format_x i)" using REV_HEX_MAP_nth[OF assms] c by simp
  then show ?thesis by (simp add: c)
qed

lemma hex_loop_encoded:
  "hex_loop (concat (concat (map (\<lambda>b. [HEX_EMOJI_16 ! (unat b div 16), HEX_EMOJI_16 ! (unat b mod 16)]) raw))) nibbles
     = Inr (nibbles @ bytes_hex raw)"
proof (induction raw arbitrary: nibbles)
  case Nil
  show ?case by (simp add: bytes_hex_def)
next
  case (Cons b raw)
  have hi: "unat b div 16 < 16" by (rule high_nibble_lt)
  have lo: "unat b mod 16 < 16" by simp
  show ?case using Cons[of "nibbles @ [format_x (unat b div 16), format_x (unat b mod 16)]"]
    by (simp add: hex_loop_symbol[OF hi] hex_loop_symbol[OF lo] bytes_hex_def)
qed

lemma bytes_fromhex_hex: "bytes_fromhex (bytes_hex raw) = Inr raw"
proof (induction raw)
  case Nil
  show ?case by (simp add: bytes_hex_def)
next
  case (Cons b raw)
  have hi: "unat b div 16 < 16" by (rule high_nibble_lt)
  have lo: "unat b mod 16 < 16" by simp
  have "16 * (unat b div 16) + unat b mod 16 = unat b" by simp
  then have "(of_nat (16 * (unat b div 16) + unat b mod 16) :: byte) = b" by (simp del: of_nat_add of_nat_mult)
  then show ?case using Cons
    by (simp add: bytes_hex_def hexval_format_x[OF hi] hexval_format_x[OF lo] del: of_nat_add of_nat_mult)
qed

lemma length_bytes_hex: "length (bytes_hex raw) = 2 * length raw"
  by (induction raw) (simp_all add: bytes_hex_def)

lemma single_byte_roundtrip:
  "lim \<le> 256 \<Longrightarrow> c < lim \<Longrightarrow> single_byte_decode lim (of_nat c # r) = map_option ((#) c) (single_byte_decode lim r)"
  by (simp add: unat_byte)

lemma encode_each_decode:
  assumes step: "\<And>c bs rest. cp c = Some bs \<Longrightarrow> dec (bs @ rest) = map_option ((#) c) (dec rest)"
    and nil: "dec [] = Some []"
  shows "encode_each cp t = Inr raw \<Longrightarrow> dec raw = Some t"
proof (induction t arbitrary: raw)
  case Nil
  then show ?case using nil by simp
next
  case (Cons c t)
  from Cons.prems obtain bs r where bs: "cp c = Some bs" and r: "encode_each cp t = Inr r"
    and raw: "raw = bs @ r"
    by (auto split: option.splits sum.splits)
  show ?case using step[OF bs, of r] Cons.IH[OF r] raw by simp
qed

lemma latin1_decode_encode_cp:
  "latin1_encode_cp c = Some bs \<Longrightarrow>
   single_byte_decode 0x100 (bs @ rest) = map_option ((#) c) (single_byte_decode 0x100 rest)"
  by (auto simp: latin1_encode_cp_def unat_byte split: if_splits)

lemma ascii_decode_encode_cp:
  "ascii_encode_cp c = Some bs \<Longrightarrow>
   single_byte_decode 0x80 (bs @ rest) = map_option ((#) c) (single_byte_decode 0x80 rest)"
  by (auto simp: ascii_encode_cp_def unat_byte split: if_splits)

lemma bytes_decode_str_encode:
  assumes "enc \<in> {Utf8, Latin1, Ascii}" and "str_encode t enc = Inr raw"
  shows "bytes_decode raw enc = Inr t"
proof -
  consider "enc = Utf8" | "enc = Latin1" | "enc = Ascii" using assms(1) by auto
  then show ?thesis
  proof cases
    case 1
    then have "encode_each utf8_encode_cp t = Inr raw" using assms(2) by (simp add: str_encode_def)
    then have "utf8_decode raw = Some t"
      by (rule encode_each_decode[rotated 2]) (simp_all add: utf8_decode_encode_cp)
    then show ?thesis using 1 by (simp add: bytes_decode_def strict_def)
  next
    case 2
    then have "encode_each latin1_encode_cp t = Inr raw" using assms(2) by (simp add: str_encode_def)
    then have "single_byte_decode 0x100 raw = Some t"
      by (rule encode_each_decode[rotated 2]) (simp_all add: latin1_decode_encode_cp)
    then show ?thesis using 2 by (simp add: bytes_decode_def strict_def)
  next
    case 3
    then have "encode_each ascii_encode_cp t = Inr raw" using assms(2) by (simp add: str_encode_def)
    then have "single_byte_decode 0x80 raw = Some t"
      by (rule encode_each_decode[rotated 2]) (simp_all add: ascii_decode_encode_cp)
    then show ?thesis using 3 by (simp add: bytes_decode_def strict_def)
  qed
qed

lemma encode_hex_emoji_Inr:
  "str_encode t enc = Inr raw \<Longrightarrow>
   encode_hex_emoji t enc =
     \<lparr>ok = True,
      data = concat (concat (map (\<lambda>b. [HEX_EMOJI_16 ! (unat b div 16),
                                         HEX_EMOJI_16 ! (unat b mod 16)]) raw)),
      error = NoMessage\<rparr>"
  by (simp add: encode_hex_emoji_def lookup_all_hex)

lemma length_hex_symbols:
  "length (concat (concat (map (\<lambda>b. [HEX_EMOJI_16 ! (unat b div 16),
                                         HEX_EMOJI_16 ! (unat b mod 16)]) (raw :: byte list)))) = 2 * length raw"
proof (induction raw)
  case Nil
  show ?case by simp
next
  case (Cons b raw)
  have lo: "unat b mod 16 < 16" by simp
  obtain ch cl where "HEX_EMOJI_16 ! (unat b div 16) = [ch]" "HEX_EMOJI_16 ! (unat b mod 16) = [cl]"
    using HEX_EMOJI_16_single[OF high_nibble_lt[of b]] HEX_EMOJI_16_single[OF lo] by blast
  then show ?case using Cons by simp
qed

text \<open>
  Claim C7. For every text that the chosen encoding can represent, \<open>encode_hex_emoji\<close>
  succeeds and its payload is, octet by octet in order, the symbol of the high nibble followed
  by the symbol of the low nibble. Every symbol is one code point of the 16-symbol alphabet,
  so the payload has twice as many symbols as the text has octets.
\<close>

theorem encode_hex_emoji_shape:
  assumes "str_encode t enc = Inr raw"
  shows "let syms = concat (map (\<lambda>b. [HEX_EMOJI_16 ! (unat b div 16),
                                        HEX_EMOJI_16 ! (unat b mod 16)]) raw)
         in encode_hex_emoji t enc = \<lparr>ok = True, data = concat syms, error = NoMessage\<rparr> \<and>
            list_all (\<lambda>s. s \<in> set HEX_EMOJI_16 \<and> length s = 1) syms \<and>
            length syms = 2 * length raw \<and>
            length (data (encode_hex_emoji t enc)) = 2 * length raw"
proof -
  have a: "list_all (\<lambda>s. s \<in> set HEX_EMOJI_16 \<and> length s = 1)
     (concat (map (\<lambda>b. [HEX_EMOJI_16 ! (unat b div 16), HEX_EMOJI_16 ! (unat b mod 16)]) raw))"
  proof (induction raw)
    case Nil
    show ?case by simp
  next
    case (Cons b raw)
    have lo: "unat b mod 16 < 16" by simp
    have len: "length HEX_EMOJI_16 = 16" by (simp add: HEX_EMOJI_16_def)
    have "HEX_EMOJI_16 ! (unat b div 16) \<in> set HEX_EMOJI_16" "HEX_EMOJI_16 ! (unat b mod 16) \<in> set HEX_EMOJI_16"
      using high_nibble_lt[of b] lo len by (simp_all del: mod_less_divisor)
    moreover obtain ch cl where "HEX_EMOJI_16 ! (unat b div 16) = [ch]" "HEX_EMOJI_16 ! (unat b mod 16) = [cl]"
      using HEX_EMOJI_16_single[OF high_nibble_lt[of b]] HEX_EMOJI_16_single[OF lo] by blast
    ultimately show ?case using Cons by simp
  qed
  have b: "length (concat (map (\<lambda>b. [HEX_EMOJI_16 ! (unat b div 16), HEX_EMOJI_16 ! (unat b mod 16)]) raw)) = 2 * length raw"
    by (induction raw) simp_all
  show ?thesis
    unfolding Let_def using a b by (simp add: encode_hex_emoji_Inr[OF assms] length_hex_symbols)
qed

lemma decode_hex_emoji_encoded:
  assumes "str_encode t enc = Inr raw"
  shows "decode_hex_emoji (data (encode_hex_emoji t enc)) enc =
         (case bytes_decode raw enc of
            Inl e \<Rightarrow> \<lparr>ok = False, data = [], error = Str e\<rparr>
          | Inr t' \<Rightarrow> \<lparr>ok = True, data = t', error = NoMessage\<rparr>)"
  by (simp add: encode_hex_emoji_Inr[OF assms] decode_hex_emoji_def hex_loop_encoded
      length_bytes_hex bytes_fromhex_hex)

lemma str_encode_escape:
  "str_encode [0x5C, 0x75, 0x30, 0x30, 0x34, 0x31] RawUnicodeEscape =
     Inr [0x5C, 0x75, 0x30, 0x30, 0x34, 0x31]"
  by (simp add: str_encode_def raw_unicode_escape_cp_def)

lemma bytes_decode_escape:
  "bytes_decode [0x5C, 0x75, 0x30, 0x30, 0x34, 0x31] RawUnicodeEscape = Inr [0x41]"
  by (simp add: bytes_decode_def strict_def hexdigit_val_def)

text \<open>
  The text of the six characters backslash, \<open>u\<close>, \<open>0\<close>, \<open>0\<close>, \<open>4\<close>, \<open>1\<close> is representable
  in \<open>raw_unicode_escape\<close>: each of its characters is below 256 and becomes one octet.
  \<open>encode_hex_emoji\<close> succeeds on it, and \<open>decode_hex_emoji\<close> of the payload succeeds with the
  one-character text \<open>A\<close>, because the decoder of that encoding reads the six octets as an
  escape.
\<close>

theorem hex_round_trip_fails_raw_unicode_escape:
  "str_encode [0x5C, 0x75, 0x30, 0x30, 0x34, 0x31] RawUnicodeEscape =
     Inr [0x5C, 0x75, 0x30, 0x30, 0x34, 0x31] \<and>
   encode_hex_emoji [0x5C, 0x75, 0x30, 0x30, 0x34, 0x31] RawUnicodeEscape =
     \<lparr>ok = True,
      data = [0x1F605, 0x1F60E, 0x1F609, 0x1F605, 0x1F603, 0x1F600,
              0x1F603, 0x1F600, 0x1F603, 0x1F604, 0x1F603, 0x1F601],
      error = NoMessage\<rparr> \<and>
   decode_hex_emoji (data (encode_hex_emoji [0x5C, 0x75, 0x30, 0x30, 0x34, 0x31] RawUnicodeEscape))
       RawUnicodeEscape = \<lparr>ok = True, data = [0x41], error = NoMessage\<rparr> \<and>
   decode_hex_emoji (data (encode_hex_emoji [0x5C, 0x75, 0x30, 0x30, 0x34, 0x31] RawUnicodeEscape))
       RawUnicodeEscape \<noteq> \<lparr>ok = True, data = [0x5C, 0x75, 0x30, 0x30, 0x34, 0x31], error = NoMessage\<rparr>"
proof -
  have "decode_hex_emoji (data (encode_hex_emoji [0x5C, 0x75, 0x30, 0x30, 0x34, 0x31] RawUnicodeEscape))
       RawUnicodeEscape = \<lparr>ok = True, data = [0x41], error = NoMessage\<rparr>"
    by (simp only: decode_hex_emoji_encoded[OF str_encode_escape] bytes_decode_escape sum.case)
  moreover have "encode_hex_emoji [0x5C, 0x75, 0x30, 0x30, 0x34, 0x31] RawUnicodeEscape =
     \<lparr>ok = True,
      data = [0x1F605, 0x1F60E, 0x1F609, 0x1F605, 0x1F603, 0x1F600,
              0x1F603, 0x1F600, 0x1F603, 0x1F604, 0x1F603, 0x1F601],
      error = NoMessage\<rparr>"
    by (simp add: encode_hex_emoji_Inr[OF str_encode_escape] HEX_EMOJI_16_def)
  ultimately show ?thesis by (simp add: str_encode_escape)
qed

text \<open>
  Claim C4. For every text \<open>t\<close> that the chosen encoding can represent, \<open>encode_hex_emoji\<close>
  succeeds, and \<open>decode_hex_emoji\<close> of its payload returns what the decoder of that encoding
  returns on the octets of \<open>t\<close>. So it succeeds with exactly \<open>t\<close> if and only if that decoder
  maps the octets of \<open>t\<close> back to \<open>t\<close>, which it does for every representable text in UTF-8
  (the default), Latin-1 and ASCII.
\<close>

theorem hex_round_trip:
  assumes "str_encode t enc = Inr raw"
  shows "ok (encode_hex_emoji t enc) \<and>
         decode_hex_emoji (data (encode_hex_emoji t enc)) enc =
           (case bytes_decode raw enc of
              Inl e \<Rightarrow> \<lparr>ok = False, data = [], error = Str e\<rparr>
            | Inr t' \<Rightarrow> \<lparr>ok = True, data = t', error = NoMessage\<rparr>) \<and>
         (decode_hex_emoji (data (encode_hex_emoji t enc)) enc = \<lparr>ok = True, data = t, error = NoMessage\<rparr>
            \<longleftrightarrow> bytes_decode raw enc = Inr t) \<and>
         (enc \<in> {Utf8, Latin1, Ascii} \<longrightarrow>
            decode_hex_emoji (data (encode_hex_emoji t enc)) enc = \<lparr>ok = True, data = t, error = NoMessage\<rparr>)"
proof -
  have enc_ok: "ok (encode_hex_emoji t enc)"
    by (simp add: encode_hex_emoji_Inr[OF assms])
  have iff: "decode_hex_emoji (data (encode_hex_emoji t enc)) enc = \<lparr>ok = True, data = t, error = NoMessage\<rparr>
         \<longleftrightarrow> bytes_decode raw enc = Inr t"
    unfolding decode_hex_emoji_encoded[OF assms] by (cases "bytes_decode raw enc") simp_all
  have std: "decode_hex_emoji (data (encode_hex_emoji t enc)) enc = \<lparr>ok = True, data = t, error = NoMessage\<rparr>"
    if "enc \<in> {Utf8, Latin1, Ascii}"
    using bytes_decode_str_encode[OF that assms] iff by simp
  show ?thesis using enc_ok decode_hex_emoji_encoded[OF assms] iff std by blast
qed

lemma str_encode_Hi: "str_encode [0x48, 0x69] Utf8 = Inr [0x48, 0x69]"
  by (simp add: str_encode_def utf8_encode_cp_def)

lemma bytes_decode_Hi: "bytes_decode [0x48, 0x69] Utf8 = Inr [0x48, 0x69]"
  by (simp add: bytes_decode_def strict_def)

theorem hex_round_trip_witness:
  "str_encode [0x48, 0x69] Utf8 = Inr [0x48, 0x69] \<and>
   bytes_decode [0x48, 0x69] Utf8 = Inr [0x48, 0x69] \<and>
   Utf8 \<in> {Utf8, Latin1, Ascii} \<and>
   ok (encode_hex_emoji [0x48, 0x69] Utf8) \<and>
   decode_hex_emoji (data (encode_hex_emoji [0x48, 0x69] Utf8)) Utf8 = \<lparr>ok = True, data = [0x48, 0x69], error = NoMessage\<rparr>"
  using hex_round_trip[OF str_encode_Hi] str_encode_Hi bytes_decode_Hi by simp

theorem encode_hex_emoji_shape_witness:
  "str_encode [0x48, 0x69] Utf8 = Inr [0x48, 0x69] \<and>
   encode_hex_emoji [0x48, 0x69] Utf8 = \<lparr>ok = True, data = [0x1F604, 0x1F60A, 0x1F606, 0x1F642], error = NoMessage\<rparr> \<and>
   length (data (encode_hex_emoji [0x48, 0x69] Utf8)) = 2 * length [0x48 :: byte, 0x69]"
  using encode_hex_emoji_shape[OF str_encode_Hi] str_encode_Hi
  by (simp add: Let_def HEX_EMOJI_16_def)

section \<open>The alphabet tables\<close>

lemma upt64:
  "[0..<64] = [0..<16] @ map (\<lambda>i. i + 16) [0..<16] @ map (\<lambda>i. i + 32) [0..<16] @
     map (\<lambda>i. i + 48) [0..<16]"
  by code_simp

lemma B64_TO_EMOJI_eq: "B64_TO_EMOJI = dict_of (zip B64_STD BASE64_EMOJI_64)"
  by (simp add: B64_TO_EMOJI_def upt64 upt16 B64_STD_def BASE64_EMOJI_64_def)

lemma EMOJI_TO_B64_eq: "EMOJI_TO_B64 = dict_of (zip BASE64_EMOJI_64 B64_STD)"
  by (simp add: EMOJI_TO_B64_def upt64 upt16 B64_STD_def BASE64_EMOJI_64_def)

lemma dict_of_fold_dom:
  "fold (\<lambda>(k, v) m. m(k \<mapsto> v)) items m0 k = None \<longleftrightarrow> k \<notin> fst ` set items \<and> m0 k = None"
  by (induction items arbitrary: m0) (auto split: if_splits)

lemma dict_of_dom: "dict_of items k = None \<longleftrightarrow> k \<notin> fst ` set items"
  by (simp add: dict_of_def dict_of_fold_dom)

lemma REV_HEX_MAP_dom: "REV_HEX_MAP s = None \<longleftrightarrow> s \<notin> set HEX_EMOJI_16"
proof -
  have "fst ` set (map (\<lambda>(k, v). (v, k)) (zip hexdigits HEX_EMOJI_16)) = set HEX_EMOJI_16"
    by (simp add: hexdigits_def HEX_EMOJI_16_def)
  then show ?thesis unfolding REV_HEX_MAP_def HEX_MAP_items_eq dict_of_dom by simp
qed

lemma EMOJI_TO_B64_dom: "EMOJI_TO_B64 s = None \<longleftrightarrow> s \<notin> set BASE64_EMOJI_64"
proof -
  have "fst ` set (zip BASE64_EMOJI_64 B64_STD) = set BASE64_EMOJI_64"
    by (simp add: B64_STD_def BASE64_EMOJI_64_def)
  then show ?thesis unfolding EMOJI_TO_B64_eq dict_of_dom by simp
qed

lemma REV_HEX_MAP_in_dom: "s \<in> dom REV_HEX_MAP \<longleftrightarrow> s \<in> set HEX_EMOJI_16"
  by (simp add: domIff REV_HEX_MAP_dom)

lemma EMOJI_TO_B64_in_dom: "s \<in> dom EMOJI_TO_B64 \<longleftrightarrow> s \<in> set BASE64_EMOJI_64"
  by (simp add: domIff EMOJI_TO_B64_dom)

lemma HEX_prefix_of_BASE64: "HEX_EMOJI_16 = take 16 BASE64_EMOJI_64"
  by (simp add: HEX_EMOJI_16_def BASE64_EMOJI_64_def)

lemma HEX_subset_BASE64: "s \<in> set HEX_EMOJI_16 \<Longrightarrow> s \<in> set BASE64_EMOJI_64"
  unfolding HEX_prefix_of_BASE64 by (rule in_set_takeD)

lemma looks_like_hex_imp_b64: "looks_like_hex_emoji s \<Longrightarrow> looks_like_b64_emoji s"
proof -
  assume a: "looks_like_hex_emoji s"
  have sub: "[ch] \<in> dom REV_HEX_MAP \<Longrightarrow> [ch] \<in> set (BASE64_EMOJI_64 @ [PADDING_EMOJI])" for ch
    by (auto simp: REV_HEX_MAP_in_dom dest: HEX_subset_BASE64)
  have "list_all (\<lambda>ch. [ch] \<in> set (BASE64_EMOJI_64 @ [PADDING_EMOJI]) \<or> isspace [ch]) s"
    using a sub unfolding looks_like_hex_emoji_def list_all_iff by blast
  moreover have "list_ex (\<lambda>ch. [ch] \<in> set (BASE64_EMOJI_64 @ [PADDING_EMOJI])) s"
    using a sub unfolding looks_like_hex_emoji_def list_ex_iff by blast
  ultimately show ?thesis by (simp add: looks_like_b64_emoji_def Let_def)
qed

text \<open>
  Claim C9. The 16-symbol alphabet is the first 16 entries of the 64-symbol alphabet, so
  every string that \<open>looks_like_hex_emoji\<close> accepts is accepted by \<open>looks_like_b64_emoji\<close>.
\<close>

theorem hex_detector_implies_b64_detector:
  "HEX_EMOJI_16 = take 16 BASE64_EMOJI_64 \<and>
   (looks_like_hex_emoji s \<longrightarrow> looks_like_b64_emoji s)"
  using looks_like_hex_imp_b64 HEX_prefix_of_BASE64 by blast

lemma fold_upd_map_of:
  "fold (\<lambda>(k, v) m. m(k \<mapsto> v)) items m0 = m0 ++ map_of (rev items)"
proof (induction items arbitrary: m0)
  case Nil
  show ?case by simp
next
  case (Cons kv items)
  obtain k v where kv: "kv = (k, v)" by (cases kv)
  have "fold (\<lambda>(k, v) m. m(k \<mapsto> v)) (kv # items) m0
      = fold (\<lambda>(k, v) m. m(k \<mapsto> v)) items (m0(k \<mapsto> v))" by (simp add: kv)
  also have "\<dots> = m0(k \<mapsto> v) ++ map_of (rev items)" by (rule Cons)
  also have "\<dots> = m0 ++ map_of (rev (kv # items))"
    by (simp add: kv map_add_def fun_eq_iff split: option.splits)
  finally show ?case .
qed

lemma dict_of_map_of: "dict_of items = map_of (rev items)"
  by (simp add: dict_of_def fold_upd_map_of)

lemma EMOJI_TO_B64_alist:
  "EMOJI_TO_B64 = map_of
     [([0x1F47B], CHR ''/''), ([0x1F608], CHR ''+''), ([0x1F60C], CHR ''9''),
      ([0x1F634], CHR ''8''), ([0x1F92F], CHR ''7''), ([0x1F632], CHR ''6''),
      ([0x1F62F], CHR ''5''), ([0x1F630], CHR ''4''), ([0x1F628], CHR ''3''),
      ([0x1F631], CHR ''2''), ([0x1F62D], CHR ''1''), ([0x1F622], CHR ''0''),
      ([0x1F624], CHR ''z''), ([0x1F61F], CHR ''y''), ([0x2639, 0xFE0F], CHR ''x''),
      ([0x1F641], CHR ''w''), ([0x1F615], CHR ''v''), ([0x1F614], CHR ''u''),
      ([0x1F62C], CHR ''t''), ([0x1F925], CHR ''s''), ([0x1F92B], CHR ''r''),
      ([0x1F92D], CHR ''q''), ([0x1F917], CHR ''p''), ([0x1F61D], CHR ''o''),
      ([0x1F92A], CHR ''n''), ([0x1F61C], CHR ''m''), ([0x1F61B], CHR ''l''),
      ([0x1F60C], CHR ''k''), ([0x1F634], CHR ''j''), ([0x1F971], CHR ''i''),
      ([0x1F62B], CHR ''h''), ([0x1F62A], CHR ''g''), ([0x1F910], CHR ''f''),
      ([0x1F62E], CHR ''e''), ([0x1F625], CHR ''d''), ([0x1F623], CHR ''c''),
      ([0x1F60F], CHR ''b''), ([0x1F644], CHR ''a''), ([0x1F636], CHR ''Z''),
      ([0x1F611], CHR ''Y''), ([0x1F610], CHR ''X''), ([0x1F928], CHR ''W''),
      ([0x1F914], CHR ''V''), ([0x1F917], CHR ''U''), ([0x1F929], CHR ''T''),
      ([0x1F970], CHR ''S''), ([0x1F61A], CHR ''R''), ([0x1F619], CHR ''Q''),
      ([0x1F617], CHR ''P''), ([0x1F618], CHR ''O''), ([0x1F60D], CHR ''N''),
      ([0x1F60E], CHR ''M''), ([0x1F60B], CHR ''L''), ([0x1F643], CHR ''K''),
      ([0x1F642], CHR ''J''), ([0x1F60A], CHR ''I''), ([0x1F609], CHR ''H''),
      ([0x1F606], CHR ''G''), ([0x1F605], CHR ''F''), ([0x1F604], CHR ''E''),
      ([0x1F603], CHR ''D''), ([0x1F602], CHR ''C''), ([0x1F601], CHR ''B''),
      ([0x1F600], CHR ''A'')]"
  by (simp add: EMOJI_TO_B64_eq dict_of_map_of B64_STD_def BASE64_EMOJI_64_def)

lemma B64_TO_EMOJI_alist:
  "B64_TO_EMOJI = map_of
     [(CHR ''/'', [0x1F47B]), (CHR ''+'', [0x1F608]), (CHR ''9'', [0x1F60C]),
      (CHR ''8'', [0x1F634]), (CHR ''7'', [0x1F92F]), (CHR ''6'', [0x1F632]),
      (CHR ''5'', [0x1F62F]), (CHR ''4'', [0x1F630]), (CHR ''3'', [0x1F628]),
      (CHR ''2'', [0x1F631]), (CHR ''1'', [0x1F62D]), (CHR ''0'', [0x1F622]),
      (CHR ''z'', [0x1F624]), (CHR ''y'', [0x1F61F]), (CHR ''x'', [0x2639, 0xFE0F]),
      (CHR ''w'', [0x1F641]), (CHR ''v'', [0x1F615]), (CHR ''u'', [0x1F614]),
      (CHR ''t'', [0x1F62C]), (CHR ''s'', [0x1F925]), (CHR ''r'', [0x1F92B]),
      (CHR ''q'', [0x1F92D]), (CHR ''p'', [0x1F917]), (CHR ''o'', [0x1F61D]),
      (CHR ''n'', [0x1F92A]), (CHR ''m'', [0x1F61C]), (CHR ''l'', [0x1F61B]),
      (CHR ''k'', [0x1F60C]), (CHR ''j'', [0x1F634]), (CHR ''i'', [0x1F971]),
      (CHR ''h'', [0x1F62B]), (CHR ''g'', [0x1F62A]), (CHR ''f'', [0x1F910]),
      (CHR ''e'', [0x1F62E]), (CHR ''d'', [0x1F625]), (CHR ''c'', [0x1F623]),
      (CHR ''b'', [0x1F60F]), (CHR ''a'', [0x1F644]), (CHR ''Z'', [0x1F636]),
      (CHR ''Y'', [0x1F611]), (CHR ''X'', [0x1F610]), (CHR ''W'', [0x1F928]),
      (CHR ''V'', [0x1F914]), (CHR ''U'', [0x1F917]), (CHR ''T'', [0x1F929]),
      (CHR ''S'', [0x1F970]), (CHR ''R'', [0x1F61A]), (CHR ''Q'', [0x1F619]),
      (CHR ''P'', [0x1F617]), (CHR ''O'', [0x1F618]), (CHR ''N'', [0x1F60D]),
      (CHR ''M'', [0x1F60E]), (CHR ''L'', [0x1F60B]), (CHR ''K'', [0x1F643]),
      (CHR ''J'', [0x1F642]), (CHR ''I'', [0x1F60A]), (CHR ''H'', [0x1F609]),
      (CHR ''G'', [0x1F606]), (CHR ''F'', [0x1F605]), (CHR ''E'', [0x1F604]),
      (CHR ''D'', [0x1F603]), (CHR ''C'', [0x1F602]), (CHR ''B'', [0x1F601]),
      (CHR ''A'', [0x1F600])]"
  by (simp add: B64_TO_EMOJI_eq dict_of_map_of B64_STD_def BASE64_EMOJI_64_def)





lemma b64val_alist:
  "b64val = map_of
     [(CHR ''A'', 0), (CHR ''B'', 1), (CHR ''C'', 2), (CHR ''D'', 3), (CHR ''E'', 4), (CHR ''F'', 5),
      (CHR ''G'', 6), (CHR ''H'', 7), (CHR ''I'', 8), (CHR ''J'', 9), (CHR ''K'', 10), (CHR ''L'', 11),
      (CHR ''M'', 12), (CHR ''N'', 13), (CHR ''O'', 14), (CHR ''P'', 15), (CHR ''Q'', 16), (CHR ''R'', 17),
      (CHR ''S'', 18), (CHR ''T'', 19), (CHR ''U'', 20), (CHR ''V'', 21), (CHR ''W'', 22), (CHR ''X'', 23),
      (CHR ''Y'', 24), (CHR ''Z'', 25), (CHR ''a'', 26), (CHR ''b'', 27), (CHR ''c'', 28), (CHR ''d'', 29),
      (CHR ''e'', 30), (CHR ''f'', 31), (CHR ''g'', 32), (CHR ''h'', 33), (CHR ''i'', 34), (CHR ''j'', 35),
      (CHR ''k'', 36), (CHR ''l'', 37), (CHR ''m'', 38), (CHR ''n'', 39), (CHR ''o'', 40), (CHR ''p'', 41),
      (CHR ''q'', 42), (CHR ''r'', 43), (CHR ''s'', 44), (CHR ''t'', 45), (CHR ''u'', 46), (CHR ''v'', 47),
      (CHR ''w'', 48), (CHR ''x'', 49), (CHR ''y'', 50), (CHR ''z'', 51), (CHR ''0'', 52), (CHR ''1'', 53),
      (CHR ''2'', 54), (CHR ''3'', 55), (CHR ''4'', 56), (CHR ''5'', 57), (CHR ''6'', 58), (CHR ''7'', 59),
      (CHR ''8'', 60), (CHR ''9'', 61), (CHR ''+'', 62), (CHR ''/'', 63)]"
  by (simp add: b64val_def upt64 upt16 B64_STD_def)

lemma map_of_hit: "k = k' \<Longrightarrow> map_of ((k, v) # ps) k' = Some v"
  by simp

lemma map_of_miss: "k \<noteq> k' \<Longrightarrow> map_of ((k, v) # ps) k' = map_of ps k'"
  by simp

lemmas table_eval = map_of_hit map_of_miss map_of.simps(1) list.inject list.distinct rel_simps
  simp_thms char.inject

lemma lookups_cE0:
  "EMOJI_TO_B64 [0x1F611] = Some CHR ''Y''"
  "EMOJI_TO_B64 [0x1F622] = Some CHR ''0''"
  "EMOJI_TO_B64 [0x1F917] = Some CHR ''p''"
  "EMOJI_TO_B64 [0x1F641] = Some CHR ''w''"
  "B64_TO_EMOJI CHR ''Y'' = Some [0x1F611]"
  "B64_TO_EMOJI CHR ''0'' = Some [0x1F622]"
  "B64_TO_EMOJI CHR ''U'' = Some [0x1F917]"
  "B64_TO_EMOJI CHR ''w'' = Some [0x1F641]"
  "b64val CHR ''Y'' = Some 24"
  "b64val CHR ''0'' = Some 52"
  "b64val CHR ''p'' = Some 41"
  "b64val CHR ''w'' = Some 48"
  by (simp_all only: EMOJI_TO_B64_alist B64_TO_EMOJI_alist b64val_alist table_eval)

lemma lookups_hi:
  "EMOJI_TO_B64 [0x1F604] = Some CHR ''E''"
  "EMOJI_TO_B64 [0x1F60A] = Some CHR ''I''"
  "EMOJI_TO_B64 [0x1F606] = Some CHR ''G''"
  "EMOJI_TO_B64 [0x1F642] = Some CHR ''J''"
  "b64val CHR ''E'' = Some 4"
  "b64val CHR ''I'' = Some 8"
  "b64val CHR ''G'' = Some 6"
  "b64val CHR ''J'' = Some 9"
  by (simp_all only: EMOJI_TO_B64_alist b64val_alist table_eval)

lemma lookups_001:
  "EMOJI_TO_B64 [0x1F60E] = Some CHR ''M''"
  "EMOJI_TO_B64 [0x1F603] = Some CHR ''D''"
  "EMOJI_TO_B64 [0x1F600] = Some CHR ''A''"
  "EMOJI_TO_B64 [0x2639, 0xFE0F] = Some CHR ''x''"
  "B64_TO_EMOJI CHR ''M'' = Some [0x1F60E]"
  "B64_TO_EMOJI CHR ''D'' = Some [0x1F603]"
  "B64_TO_EMOJI CHR ''A'' = Some [0x1F600]"
  "B64_TO_EMOJI CHR ''x'' = Some [0x2639, 0xFE0F]"
  "b64val CHR ''M'' = Some 12"
  "b64val CHR ''D'' = Some 3"
  "b64val CHR ''A'' = Some 0"
  "b64val CHR ''x'' = Some 49"
  by (simp_all only: EMOJI_TO_B64_alist B64_TO_EMOJI_alist b64val_alist table_eval)

lemma EMOJI_TO_B64_pair: "EMOJI_TO_B64 [c, d] = None \<longleftrightarrow> \<not> (c = 0x2639 \<and> d = 0xFE0F)"
  unfolding EMOJI_TO_B64_dom by (simp add: BASE64_EMOJI_64_def)

lemma EMOJI_TO_B64_pair_in_dom: "[c, d] \<in> dom EMOJI_TO_B64 \<longleftrightarrow> c = 0x2639 \<and> d = 0xFE0F"
  by (simp add: domIff EMOJI_TO_B64_pair)

lemmas unit_defs = b64_unit_def isspace_def isspace_cp_def PADDING_EMOJI_def
  EMOJI_TO_B64_pair_in_dom

lemmas text_defs = str_encode_def utf8_encode_cp_def bytes_decode_def strict_def is_cont_def cont_bits_def

section \<open>The base-64 codec on the table of the source\<close>

lemma encode_b64_cE0:
  "encode_b64_emoji [0x63, 0x45, 0x30] Utf8 =
     \<lparr>ok = True, data = [0x1F611, 0x1F622, 0x1F917, 0x1F641], error = NoMessage\<rparr>"
  by (simp add: encode_b64_emoji_def text_defs B64_STD_def lookups_cE0)

lemma decode_b64_cE0:
  "decode_b64_emoji [0x1F611, 0x1F622, 0x1F917, 0x1F641] Utf8 =
     \<lparr>ok = True, data = [0x63, 0x4A, 0x70], error = NoMessage\<rparr>"
  by (simp add: decode_b64_emoji_def unit_defs lookups_cE0 b64decode_def text_defs)

text \<open>
  Claim C1, at the text \<open>"cE0"\<close>: the encoder succeeds, and the decoder, applied to the
  payload, succeeds with the text \<open>"cJp"\<close>. The base-64 character \<open>U\<close> is written as the
  symbol that position 20 shares with position 41, and is read back as \<open>p\<close>.
\<close>

theorem b64_round_trip_fails:
  "encode_b64_emoji [0x63, 0x45, 0x30] Utf8 =
     \<lparr>ok = True, data = [0x1F611, 0x1F622, 0x1F917, 0x1F641], error = NoMessage\<rparr> \<and>
   decode_b64_emoji (data (encode_b64_emoji [0x63, 0x45, 0x30] Utf8)) Utf8 =
     \<lparr>ok = True, data = [0x63, 0x4A, 0x70], error = NoMessage\<rparr>"
  by (simp add: encode_b64_cE0 decode_b64_cE0)

lemma BASE64_EMOJI_64_duplicates:
  "BASE64_EMOJI_64 ! 20 = BASE64_EMOJI_64 ! 41"
  "BASE64_EMOJI_64 ! 35 = BASE64_EMOJI_64 ! 60"
  "BASE64_EMOJI_64 ! 36 = BASE64_EMOJI_64 ! 61"
  by (simp_all add: BASE64_EMOJI_64_def)

text \<open>
  Claim C2, on the table of the source: the 64-symbol alphabet repeats a symbol at the
  positions 20 and 41, 35 and 60, 36 and 61. The symbol that \<open>B64_TO_EMOJI\<close> gives for
  \<open>U\<close> (position 20) is mapped by \<open>EMOJI_TO_B64\<close> to \<open>p\<close> (position 41).
\<close>

theorem b64_alphabet_not_distinct:
  "distinct HEX_EMOJI_16 \<and>
   \<not> distinct BASE64_EMOJI_64 \<and>
   BASE64_EMOJI_64 ! 20 = BASE64_EMOJI_64 ! 41 \<and>
   BASE64_EMOJI_64 ! 35 = BASE64_EMOJI_64 ! 60 \<and>
   BASE64_EMOJI_64 ! 36 = BASE64_EMOJI_64 ! 61 \<and>
   B64_STD ! 20 = CHR ''U'' \<and> B64_STD ! 41 = CHR ''p'' \<and>
   B64_TO_EMOJI CHR ''U'' = Some (BASE64_EMOJI_64 ! 20) \<and>
   EMOJI_TO_B64 (BASE64_EMOJI_64 ! 20) = Some CHR ''p''"
proof -
  have len: "length BASE64_EMOJI_64 = 64" by (simp add: BASE64_EMOJI_64_def)
  have "\<not> distinct BASE64_EMOJI_64"
  proof
    assume "distinct BASE64_EMOJI_64"
    then have "(BASE64_EMOJI_64 ! 20 = BASE64_EMOJI_64 ! 41) = ((20::nat) = 41)"
      by (rule nth_eq_iff_index_eq) (simp_all add: len)
    then show False using BASE64_EMOJI_64_duplicates(1) by simp
  qed
  moreover have "BASE64_EMOJI_64 ! 20 = [0x1F917]" by (simp add: BASE64_EMOJI_64_def)
  moreover have "B64_STD ! 20 = CHR ''U''" "B64_STD ! 41 = CHR ''p''" by (simp_all add: B64_STD_def)
  moreover have "distinct HEX_EMOJI_16" by (simp add: HEX_EMOJI_16_def)
  ultimately show ?thesis by (simp add: BASE64_EMOJI_64_duplicates lookups_cE0)
qed

section \<open>The detectors and the decode dispatch\<close>

lemma hi_stream_detectors:
  "looks_like_hex_emoji [0x1F604, 0x1F60A, 0x1F606, 0x1F642] \<and>
   looks_like_b64_emoji [0x1F604, 0x1F60A, 0x1F606, 0x1F642]"
proof -
  have "looks_like_hex_emoji [0x1F604, 0x1F60A, 0x1F606, 0x1F642]"
    by (simp add: looks_like_hex_emoji_def REV_HEX_MAP_in_dom HEX_EMOJI_16_def)
  then show ?thesis using looks_like_hex_imp_b64 by blast
qed

lemma decode_b64_hi:
  "decode_b64_emoji [0x1F604, 0x1F60A, 0x1F606, 0x1F642] Utf8 =
     \<lparr>ok = False, data = [], error = Base64DecodeError UnicodeDecodeError\<rparr>"
  by (simp add: decode_b64_emoji_def unit_defs lookups_hi b64decode_def text_defs)

lemma decode_hex_hi:
  "decode_hex_emoji [0x1F604, 0x1F60A, 0x1F606, 0x1F642] Utf8 =
     \<lparr>ok = True, data = [0x48, 0x69], error = NoMessage\<rparr>"
proof -
  have "hex_loop [0x1F604, 0x1F60A, 0x1F606, 0x1F642] [] = Inr ''4869''"
    by (simp add: hex_tables)
  then show ?thesis by (simp add: decode_hex_emoji_def hexval_def upt16 text_defs)
qed

text \<open>
  Claim C3, at the hex encoding of \<open>"Hi"\<close>: the stream satisfies \<open>looks_like_hex_emoji\<close>
  and the hex codec decodes it to \<open>"Hi"\<close>; the Auto-Detect action of the window does so;
  \<open>run_cli\<close> with \<open>--decode\<close> and the default mode decodes it with the base-64 codec
  and exits with status 2.
\<close>

theorem cli_decodes_hex_stream_as_b64:
  "looks_like_hex_emoji [0x1F604, 0x1F60A, 0x1F606, 0x1F642] \<and>
   decode_hex_emoji [0x1F604, 0x1F60A, 0x1F606, 0x1F642] Utf8 =
     \<lparr>ok = True, data = [0x48, 0x69], error = NoMessage\<rparr> \<and>
   run_cli \<lparr>encode = False, decode = True, mode = Hex\<rparr> [0x1F604, 0x1F60A, 0x1F606, 0x1F642] =
     (2, ErrorLine (Base64DecodeError UnicodeDecodeError)) \<and>
   output_text (auto_detect_decode
     \<lparr>app_mode = B64, app_direction = Encode, input_text = [0x1F604, 0x1F60A, 0x1F606, 0x1F642],
      output_text = [], status = Ready\<rparr>) = [0x48, 0x69]"
proof -
  have strip: "strip (input_get \<lparr>app_mode = B64, app_direction = Encode,
      input_text = [0x1F604, 0x1F60A, 0x1F606, 0x1F642], output_text = [], status = Ready\<rparr>)
      = [0x1F604, 0x1F60A, 0x1F606, 0x1F642]"
    by (simp add: strip_def input_get_def isspace_cp_def)
  have rstrip: "rstrip_newline (input_get \<lparr>app_mode = Hex, app_direction = Decode,
      input_text = [0x1F604, 0x1F60A, 0x1F606, 0x1F642], output_text = [], status = Ready\<rparr>)
      = [0x1F604, 0x1F60A, 0x1F606, 0x1F642]"
    by (simp add: rstrip_newline_def input_get_def)
  show ?thesis using hi_stream_detectors
    by (simp add: run_cli_def auto_detect_decode_def run_def strip rstrip decode_b64_hi decode_hex_hi)
qed

theorem hex_detector_implies_b64_detector_witness:
  "looks_like_hex_emoji [0x1F604, 0x1F60A, 0x1F606, 0x1F642] \<and>
   looks_like_b64_emoji [0x1F604, 0x1F60A, 0x1F606, 0x1F642]"
proof -
  have "looks_like_hex_emoji [0x1F604, 0x1F60A, 0x1F606, 0x1F642]"
    by (simp add: looks_like_hex_emoji_def REV_HEX_MAP_in_dom HEX_EMOJI_16_def)
  then show ?thesis
    using hex_detector_implies_b64_detector[of "[0x1F604, 0x1F60A, 0x1F606, 0x1F642]"] by simp
qed

lemma frowning_not_single: "[0x2639] \<notin> set (BASE64_EMOJI_64 @ [PADDING_EMOJI])"
  by (simp add: BASE64_EMOJI_64_def PADDING_EMOJI_def)

lemma frowning_rejected: "0x2639 \<in> set s \<Longrightarrow> \<not> looks_like_b64_emoji s"
proof -
  assume a: "0x2639 \<in> set s"
  have "\<not> ([0x2639] \<in> set (BASE64_EMOJI_64 @ [PADDING_EMOJI]) \<or> isspace [0x2639])"
    using frowning_not_single by (simp add: isspace_def isspace_cp_def)
  then have "\<not> list_all (\<lambda>ch. [ch] \<in> set (BASE64_EMOJI_64 @ [PADDING_EMOJI]) \<or> isspace [ch]) s"
    using a unfolding list_all_iff by blast
  then show ?thesis by (simp add: looks_like_b64_emoji_def Let_def)
qed

lemma encode_b64_001:
  "encode_b64_emoji [0x30, 0x30, 0x31] Utf8 =
     \<lparr>ok = True, data = [0x1F60E, 0x1F603, 0x1F600, 0x2639, 0xFE0F], error = NoMessage\<rparr>"
  by (simp add: encode_b64_emoji_def text_defs B64_STD_def lookups_001)

lemma decode_b64_001:
  "decode_b64_emoji [0x1F60E, 0x1F603, 0x1F600, 0x2639, 0xFE0F] Utf8 =
     \<lparr>ok = True, data = [0x30, 0x30, 0x31], error = NoMessage\<rparr>"
  by (simp add: decode_b64_emoji_def unit_defs lookups_001 b64decode_def text_defs)

text \<open>
  Claim C10. There is a text whose base-64 payload the encoder produces and the decoder
  reads back, and which \<open>looks_like_b64_emoji\<close> rejects: entry 49 of the alphabet is the
  two code points U+2639 U+FE0F, and the predicate rejects every string that holds the
  code point U+2639.
\<close>

theorem b64_detector_rejects_valid_payload:
  "(\<exists>t. ok (encode_b64_emoji t Utf8) \<and>
        \<not> looks_like_b64_emoji (data (encode_b64_emoji t Utf8)) \<and>
        decode_b64_emoji (data (encode_b64_emoji t Utf8)) Utf8 =
          \<lparr>ok = True, data = t, error = NoMessage\<rparr>) \<and>
   BASE64_EMOJI_64 ! 49 = [0x2639, 0xFE0F] \<and>
   (\<forall>s. 0x2639 \<in> set s \<longrightarrow> \<not> looks_like_b64_emoji s)"
proof -
  have "\<not> looks_like_b64_emoji [0x1F60E, 0x1F603, 0x1F600, 0x2639, 0xFE0F]"
    by (rule frowning_rejected) simp
  then have "ok (encode_b64_emoji [0x30, 0x30, 0x31] Utf8) \<and>
        \<not> looks_like_b64_emoji (data (encode_b64_emoji [0x30, 0x30, 0x31] Utf8)) \<and>
        decode_b64_emoji (data (encode_b64_emoji [0x30, 0x30, 0x31] Utf8)) Utf8 =
          \<lparr>ok = True, data = [0x30, 0x30, 0x31], error = NoMessage\<rparr>"
    by (simp add: encode_b64_001 decode_b64_001)
  then have "\<exists>t. ok (encode_b64_emoji t Utf8) \<and>
        \<not> looks_like_b64_emoji (data (encode_b64_emoji t Utf8)) \<and>
        decode_b64_emoji (data (encode_b64_emoji t Utf8)) Utf8 =
          \<lparr>ok = True, data = t, error = NoMessage\<rparr>" by (rule exI)
  moreover have "BASE64_EMOJI_64 ! 49 = [0x2639, 0xFE0F]" by (simp add: BASE64_EMOJI_64_def)
  ultimately show ?thesis using frowning_rejected by blast
qed

theorem b64_detector_rejects_valid_payload_witness:
  "0x2639 \<in> set (data (encode_b64_emoji [0x30, 0x30, 0x31] Utf8)) \<and>
   \<not> looks_like_b64_emoji (data (encode_b64_emoji [0x30, 0x30, 0x31] Utf8))"
proof -
  have a: "0x2639 \<in> set (data (encode_b64_emoji [0x30, 0x30, 0x31] Utf8))"
    by (simp add: encode_b64_001)
  show ?thesis using b64_detector_rejects_valid_payload a by blast
qed


section \<open>Tokenizing: odd counts, unknown units and whitespace\<close>

lemma hex_symbol_shape:
  "s \<in> set HEX_EMOJI_16 \<Longrightarrow> \<exists>c. s = [c] \<and> \<not> isspace_cp c"
  unfolding HEX_EMOJI_16_def list.set
  by (elim insertE emptyE; simp add: isspace_cp_def)

lemma b64_symbol_shape:
  "s \<in> set (BASE64_EMOJI_64 @ [PADDING_EMOJI]) \<Longrightarrow>
   (\<exists>c. s = [c] \<and> c \<noteq> 0x2639 \<and> \<not> isspace_cp c) \<or> s = [0x2639, 0xFE0F]"
  unfolding BASE64_EMOJI_64_def PADDING_EMOJI_def append.simps list.set
  by (elim insertE emptyE; simp add: isspace_cp_def)

lemma b64_pair_symbol:
  "[c, d] \<in> set (BASE64_EMOJI_64 @ [PADDING_EMOJI]) \<longleftrightarrow> c = 0x2639 \<and> d = 0xFE0F"
  by (simp add: BASE64_EMOJI_64_def PADDING_EMOJI_def)


lemma hex_loop_recognized:
  "[c] \<in> set HEX_EMOJI_16 \<Longrightarrow>
   hex_loop (c # rest) nibbles = hex_loop rest (nibbles @ [the (REV_HEX_MAP [c])])"
proof -
  assume "[c] \<in> set HEX_EMOJI_16"
  then have "REV_HEX_MAP [c] \<noteq> None" by (simp add: REV_HEX_MAP_dom)
  then show ?thesis by auto
qed

lemma hex_loop_whitespace:
  "isspace_cp c \<Longrightarrow> hex_loop (c # rest) nibbles = hex_loop rest nibbles"
proof -
  assume a: "isspace_cp c"
  then have "[c] \<notin> set HEX_EMOJI_16" using hex_symbol_shape[of "[c]"] by auto
  then have "REV_HEX_MAP [c] = None" by (simp add: REV_HEX_MAP_dom)
  then show ?thesis using a by (simp add: isspace_def)
qed

lemma hex_loop_unknown:
  "[c] \<notin> set HEX_EMOJI_16 \<Longrightarrow> \<not> isspace [c] \<Longrightarrow>
   hex_loop (c # rest) nibbles = Inl (UnknownHexEmoji [c])"
proof -
  assume a: "[c] \<notin> set HEX_EMOJI_16" "\<not> isspace [c]"
  then have "REV_HEX_MAP [c] = None" by (simp add: REV_HEX_MAP_dom)
  then show ?thesis using a by simp
qed

lemma hex_loop_clean:
  "list_all (\<lambda>c. [c] \<in> set HEX_EMOJI_16 \<or> isspace [c]) s \<Longrightarrow>
   hex_loop s nibbles =
     Inr (nibbles @ map (\<lambda>c. the (REV_HEX_MAP [c])) (filter (\<lambda>c. [c] \<in> set HEX_EMOJI_16) s))"
proof (induction s arbitrary: nibbles)
  case Nil
  show ?case by simp
next
  case (Cons c s)
  show ?case
  proof (cases "[c] \<in> set HEX_EMOJI_16")
    case True
    then show ?thesis using Cons by (simp add: hex_loop_recognized del: hex_loop.simps)
  next
    case False
    then have "isspace_cp c" using Cons.prems by (simp add: isspace_def)
    then show ?thesis using Cons False by (simp add: hex_loop_whitespace del: hex_loop.simps)
  qed
qed

lemma hex_loop_first_unknown:
  "find (\<lambda>c. [c] \<notin> set HEX_EMOJI_16 \<and> \<not> isspace [c]) s = Some c \<Longrightarrow>
   hex_loop s nibbles = Inl (UnknownHexEmoji [c])"
proof (induction s arbitrary: nibbles)
  case Nil
  then show ?case by simp
next
  case (Cons x s)
  show ?case
  proof (cases "[x] \<in> set HEX_EMOJI_16")
    case True
    then show ?thesis using Cons by (simp add: hex_loop_recognized del: hex_loop.simps)
  next
    case False
    show ?thesis
    proof (cases "isspace [x]")
      case True
      then have "isspace_cp x" by (simp add: isspace_def)
      then show ?thesis using Cons False True by (simp add: hex_loop_whitespace del: hex_loop.simps)
    next
      case nsp: False
      then show ?thesis using Cons.prems False by (simp add: hex_loop_unknown del: hex_loop.simps)
    qed
  qed
qed

lemma decode_hex_emoji_odd:
  assumes "list_all (\<lambda>c. [c] \<in> set HEX_EMOJI_16 \<or> isspace [c]) s"
    and "odd (length (filter (\<lambda>c. [c] \<in> set HEX_EMOJI_16) s))"
  shows "decode_hex_emoji s enc = \<lparr>ok = False, data = [], error = OddLengthHex\<rparr>"
  using assms(2) by (simp add: decode_hex_emoji_def hex_loop_clean[OF assms(1)] odd_iff_mod_2_eq_one)

lemma decode_hex_emoji_unknown:
  assumes "find (\<lambda>c. [c] \<notin> set HEX_EMOJI_16 \<and> \<not> isspace [c]) s = Some c"
  shows "decode_hex_emoji s enc = \<lparr>ok = False, data = [], error = UnknownHexEmoji [c]\<rparr>"
  by (simp add: decode_hex_emoji_def hex_loop_first_unknown[OF assms])

lemma filter_remove_nth:
  assumes "i < length s" "P (s ! i)"
  shows "Suc (length (filter P (take i s @ drop (Suc i) s))) = length (filter P s)"
proof -
  have "s = take i s @ s ! i # drop (Suc i) s" using assms(1) by (rule id_take_nth_drop)
  then have "filter P s = filter P (take i s) @ s ! i # filter P (drop (Suc i) s)"
    using assms(2) by (metis filter.simps(2) filter_append)
  then show ?thesis by simp
qed

text \<open>
  Claim C6. \<open>decode_hex_emoji\<close> fails whenever the number of code points of the input that
  are symbols of the hex alphabet is odd. When every code point of the input is such a
  symbol or whitespace, the failure is the odd-length message; and removing one symbol from
  such an input with an even number of symbols gives an input whose decoding fails with the
  odd-length message.
\<close>

theorem odd_token_count_fails:
  "(odd (length (filter (\<lambda>c. [c] \<in> set HEX_EMOJI_16) s)) \<longrightarrow> \<not> ok (decode_hex_emoji s enc)) \<and>
   (list_all (\<lambda>c. [c] \<in> set HEX_EMOJI_16 \<or> isspace [c]) s \<and>
    odd (length (filter (\<lambda>c. [c] \<in> set HEX_EMOJI_16) s)) \<longrightarrow>
      decode_hex_emoji s enc = \<lparr>ok = False, data = [], error = OddLengthHex\<rparr>) \<and>
   (list_all (\<lambda>c. [c] \<in> set HEX_EMOJI_16 \<or> isspace [c]) s \<and>
    even (length (filter (\<lambda>c. [c] \<in> set HEX_EMOJI_16) s)) \<longrightarrow>
      (\<forall>i < length s. [s ! i] \<in> set HEX_EMOJI_16 \<longrightarrow>
         decode_hex_emoji (take i s @ drop (Suc i) s) enc =
           \<lparr>ok = False, data = [], error = OddLengthHex\<rparr>))"
proof (intro conjI impI allI)
  assume odd: "odd (length (filter (\<lambda>c. [c] \<in> set HEX_EMOJI_16) s))"
  show "\<not> ok (decode_hex_emoji s enc)"
  proof (cases "find (\<lambda>c. [c] \<notin> set HEX_EMOJI_16 \<and> \<not> isspace [c]) s")
    case None
    then have "list_all (\<lambda>c. [c] \<in> set HEX_EMOJI_16 \<or> isspace [c]) s"
      by (auto simp: find_None_iff list_all_iff)
    then show ?thesis using odd by (simp add: decode_hex_emoji_odd)
  next
    case (Some c)
    then show ?thesis by (simp add: decode_hex_emoji_unknown)
  qed
next
  assume "list_all (\<lambda>c. [c] \<in> set HEX_EMOJI_16 \<or> isspace [c]) s \<and>
    odd (length (filter (\<lambda>c. [c] \<in> set HEX_EMOJI_16) s))"
  then show "decode_hex_emoji s enc = \<lparr>ok = False, data = [], error = OddLengthHex\<rparr>"
    by (simp add: decode_hex_emoji_odd)
next
  fix i
  assume a: "list_all (\<lambda>c. [c] \<in> set HEX_EMOJI_16 \<or> isspace [c]) s \<and>
    even (length (filter (\<lambda>c. [c] \<in> set HEX_EMOJI_16) s))"
    and i: "i < length s" and sym: "[s ! i] \<in> set HEX_EMOJI_16"
  have clean: "list_all (\<lambda>c. [c] \<in> set HEX_EMOJI_16 \<or> isspace [c]) (take i s @ drop (Suc i) s)"
    using a by (auto simp: list_all_iff dest: in_set_takeD in_set_dropD)
  have "Suc (length (filter (\<lambda>c. [c] \<in> set HEX_EMOJI_16) (take i s @ drop (Suc i) s)))
      = length (filter (\<lambda>c. [c] \<in> set HEX_EMOJI_16) s)"
    using i sym by (rule filter_remove_nth)
  then have "odd (length (filter (\<lambda>c. [c] \<in> set HEX_EMOJI_16) (take i s @ drop (Suc i) s)))"
    using a by (metis even_Suc)
  then show "decode_hex_emoji (take i s @ drop (Suc i) s) enc =
      \<lparr>ok = False, data = [], error = OddLengthHex\<rparr>"
    using clean by (simp add: decode_hex_emoji_odd)
qed


lemma b64_window:
  "([c, d] \<in> dom EMOJI_TO_B64 \<or> [c, d] = PADDING_EMOJI) \<longleftrightarrow> c = 0x2639 \<and> d = 0xFE0F"
  by (simp add: EMOJI_TO_B64_pair_in_dom PADDING_EMOJI_def)

lemma b64_unit_known:
  "u \<in> set (BASE64_EMOJI_64 @ [PADDING_EMOJI]) \<or> isspace u \<Longrightarrow> \<exists>chars'. b64_unit u chars = Inr chars'"
proof -
  assume a: "u \<in> set (BASE64_EMOJI_64 @ [PADDING_EMOJI]) \<or> isspace u"
  show ?thesis
  proof (cases "isspace u \<or> u = PADDING_EMOJI")
    case True
    then show ?thesis by (auto simp: b64_unit_def)
  next
    case False
    then have "u \<in> set BASE64_EMOJI_64" using a by auto
    then have "EMOJI_TO_B64 u \<noteq> None" by (simp add: EMOJI_TO_B64_dom)
    then show ?thesis using False by (auto simp: b64_unit_def)
  qed
qed

lemma b64_unit_unknown:
  "u \<notin> set (BASE64_EMOJI_64 @ [PADDING_EMOJI]) \<Longrightarrow> \<not> isspace u \<Longrightarrow>
   b64_unit u chars = Inl (UnknownB64Emoji u)"
proof -
  assume a: "u \<notin> set (BASE64_EMOJI_64 @ [PADDING_EMOJI])" "\<not> isspace u"
  then have "EMOJI_TO_B64 u = None" by (simp add: EMOJI_TO_B64_dom)
  then show ?thesis using a by (simp add: b64_unit_def)
qed

lemma b64_loop_first_unknown:
  "find (\<lambda>u. u \<notin> set (BASE64_EMOJI_64 @ [PADDING_EMOJI]) \<and> \<not> isspace u) (spec_units s) = Some u \<Longrightarrow>
   b64_loop s chars = Inl (UnknownB64Emoji u)"
proof (induction s arbitrary: chars rule: spec_units.induct)
  case 1
  then show ?case by simp
next
  case (2 c)
  then have "[c] \<notin> set (BASE64_EMOJI_64 @ [PADDING_EMOJI]) \<and> \<not> isspace [c] \<and> u = [c]"
    by (simp split: if_splits)
  then show ?case by (simp add: b64_unit_unknown)
next
  case (3 c d rest)
  show ?case
  proof (cases "[c, d] \<in> set (BASE64_EMOJI_64 @ [PADDING_EMOJI])")
    case True
    then have w: "[c, d] \<in> dom EMOJI_TO_B64 \<or> [c, d] = PADDING_EMOJI"
      using b64_window[of c d] b64_pair_symbol[of c d] by blast
    obtain chars' where u: "b64_unit [c, d] chars = Inr chars'"
      using b64_unit_known[of "[c, d]" chars] True by blast
    have "find (\<lambda>u. u \<notin> set (BASE64_EMOJI_64 @ [PADDING_EMOJI]) \<and> \<not> isspace u) (spec_units rest) = Some u"
      using "3.prems" True by (auto split: if_splits)
    then have "b64_loop rest chars' = Inl (UnknownB64Emoji u)" using "3.IH"(1)[OF True] by blast
    then show ?thesis using w u by simp
  next
    case False
    then have w: "\<not> ([c, d] \<in> dom EMOJI_TO_B64 \<or> [c, d] = PADDING_EMOJI)"
      using b64_window[of c d] b64_pair_symbol[of c d] by blast
    show ?thesis
    proof (cases "[c] \<notin> set (BASE64_EMOJI_64 @ [PADDING_EMOJI]) \<and> \<not> isspace [c]")
      case True
      then have "u = [c]" using "3.prems" False by (auto split: if_splits)
      then show ?thesis using w True by (simp add: b64_unit_unknown)
    next
      case known: False
      then obtain chars' where u: "b64_unit [c] chars = Inr chars'"
        using b64_unit_known[of "[c]" chars] by blast
      have "find (\<lambda>u. u \<notin> set (BASE64_EMOJI_64 @ [PADDING_EMOJI]) \<and> \<not> isspace u) (spec_units (d # rest)) = Some u"
        using "3.prems" False known by (auto split: if_splits)
      then have "b64_loop (d # rest) chars' = Inl (UnknownB64Emoji u)" using "3.IH"(2)[OF False] by blast
      then show ?thesis using w u by simp
    qed
  qed
qed

text \<open>
  Claim C8. When the input of \<open>decode_hex_emoji\<close> holds a code point that is neither a
  symbol of the hex alphabet nor whitespace, the result is a failure whose message carries
  the first such code point. When the units of the input of \<open>decode_b64_emoji\<close> (a pair of
  code points where the pair is a symbol, one code point otherwise) include one that is
  neither a symbol of the base-64 alphabet, nor the padding symbol, nor whitespace, the
  result is a failure whose message carries the first such unit.
\<close>

theorem unknown_unit_reported:
  "(find (\<lambda>c. [c] \<notin> set HEX_EMOJI_16 \<and> \<not> isspace [c]) s = Some c \<longrightarrow>
      decode_hex_emoji s enc = \<lparr>ok = False, data = [], error = UnknownHexEmoji [c]\<rparr>) \<and>
   (find (\<lambda>u. u \<notin> set (BASE64_EMOJI_64 @ [PADDING_EMOJI]) \<and> \<not> isspace u) (spec_units s) = Some u \<longrightarrow>
      decode_b64_emoji s enc = \<lparr>ok = False, data = [], error = UnknownB64Emoji u\<rparr>)"
  by (simp add: decode_hex_emoji_unknown decode_b64_emoji_def b64_loop_first_unknown)


lemma hex_loop_gap:
  "list_all isspace_cp g \<Longrightarrow> hex_loop (g @ rest) nibbles = hex_loop rest nibbles"
  by (induction g) (simp_all add: hex_loop_whitespace del: hex_loop.simps(2))

lemma hex_loop_symbol_any:
  "s \<in> set HEX_EMOJI_16 \<Longrightarrow>
   hex_loop (s @ rest) nibbles = hex_loop rest (nibbles @ [the (REV_HEX_MAP s)])"
proof -
  assume a: "s \<in> set HEX_EMOJI_16"
  then obtain c where c: "s = [c]" using hex_symbol_shape by blast
  show ?thesis using a unfolding c by (simp add: hex_loop_recognized del: hex_loop.simps(2))
qed

lemma hex_loop_weave:
  "list_all (list_all isspace_cp) gaps \<Longrightarrow> list_all (\<lambda>s. s \<in> set HEX_EMOJI_16) syms \<Longrightarrow>
   hex_loop (weave gaps syms) nibbles = hex_loop (concat syms) nibbles"
proof (induction gaps syms arbitrary: nibbles rule: weave.induct)
  case (1 syms)
  show ?case by simp
next
  case (2 g gaps)
  have "list_all isspace_cp (concat (g # gaps))" using "2.prems"(1) by (auto simp: list_all_iff)
  then have "hex_loop (concat (g # gaps) @ []) nibbles = hex_loop [] nibbles" by (rule hex_loop_gap)
  then show ?case by simp
next
  case (3 g gaps s syms)
  have g: "list_all isspace_cp g" and s: "s \<in> set HEX_EMOJI_16" using "3.prems" by simp_all
  have "hex_loop (weave (g # gaps) (s # syms)) nibbles = hex_loop (s @ weave gaps syms) nibbles"
    using hex_loop_gap[OF g] by simp
  also have "\<dots> = hex_loop (weave gaps syms) (nibbles @ [the (REV_HEX_MAP s)])"
    by (rule hex_loop_symbol_any[OF s])
  also have "\<dots> = hex_loop (concat syms) (nibbles @ [the (REV_HEX_MAP s)])"
    using "3.prems" by (intro "3.IH") simp_all
  also have "\<dots> = hex_loop (concat (s # syms)) nibbles"
    using hex_loop_symbol_any[OF s] by simp
  finally show ?case .
qed

lemma b64_loop_single:
  "c \<noteq> 0x2639 \<Longrightarrow>
   b64_loop (c # rest) chars =
     (case b64_unit [c] chars of Inl msg \<Rightarrow> Inl msg | Inr chars' \<Rightarrow> b64_loop rest chars')"
proof (cases rest)
  case Nil
  show ?thesis unfolding Nil by simp
next
  case (Cons d r)
  assume "c \<noteq> 0x2639"
  then have "\<not> ([c, d] \<in> dom EMOJI_TO_B64 \<or> [c, d] = PADDING_EMOJI)"
    using b64_window[of c d] by blast
  then show ?thesis unfolding Cons by simp
qed

lemma b64_loop_whitespace:
  "isspace_cp c \<Longrightarrow> b64_loop (c # rest) chars = b64_loop rest chars"
proof -
  assume a: "isspace_cp c"
  then have "c \<noteq> 0x2639" by (auto simp: isspace_cp_def)
  then show ?thesis using a by (simp add: b64_loop_single b64_unit_def isspace_def)
qed

lemma b64_loop_gap:
  "list_all isspace_cp g \<Longrightarrow> b64_loop (g @ rest) chars = b64_loop rest chars"
  by (induction g) (simp_all add: b64_loop_whitespace)

lemma b64_loop_symbol:
  assumes "s \<in> set (BASE64_EMOJI_64 @ [PADDING_EMOJI])"
  shows "\<exists>chars'. \<forall>rest. b64_loop (s @ rest) chars = b64_loop rest chars'"
proof -
  obtain chars' where u: "b64_unit s chars = Inr chars'"
    using b64_unit_known[of s chars] assms by blast
  consider c where "s = [c]" "c \<noteq> 0x2639" | "s = [0x2639, 0xFE0F]"
    using b64_symbol_shape[OF assms] by blast
  then have "\<forall>rest. b64_loop (s @ rest) chars = b64_loop rest chars'"
  proof cases
    case 1
    then show ?thesis using u by (simp add: b64_loop_single)
  next
    case 2
    have "[0x2639, 0xFE0F] \<in> dom EMOJI_TO_B64 \<or> [0x2639, 0xFE0F] = PADDING_EMOJI"
      using b64_window[of "0x2639" "0xFE0F"] by blast
    then show ?thesis using u unfolding 2 by simp
  qed
  then show ?thesis by blast
qed

lemma b64_loop_weave:
  "list_all (list_all isspace_cp) gaps \<Longrightarrow>
   list_all (\<lambda>s. s \<in> set (BASE64_EMOJI_64 @ [PADDING_EMOJI])) syms \<Longrightarrow>
   b64_loop (weave gaps syms) chars = b64_loop (concat syms) chars"
proof (induction gaps syms arbitrary: chars rule: weave.induct)
  case (1 syms)
  show ?case by simp
next
  case (2 g gaps)
  have "list_all isspace_cp (concat (g # gaps))" using "2.prems"(1) by (auto simp: list_all_iff)
  then have "b64_loop (concat (g # gaps) @ []) chars = b64_loop [] chars" by (rule b64_loop_gap)
  then show ?case by simp
next
  case (3 g gaps s syms)
  have g: "list_all isspace_cp g" and s: "s \<in> set (BASE64_EMOJI_64 @ [PADDING_EMOJI])"
    using "3.prems" by simp_all
  obtain chars' where c: "\<And>rest. b64_loop (s @ rest) chars = b64_loop rest chars'"
    using b64_loop_symbol[OF s, of chars] by blast
  have "b64_loop (weave (g # gaps) (s # syms)) chars = b64_loop (s @ weave gaps syms) chars"
    using b64_loop_gap[OF g] by simp
  also have "\<dots> = b64_loop (weave gaps syms) chars'" by (rule c)
  also have "\<dots> = b64_loop (concat syms) chars'"
    using "3.prems" by (intro "3.IH") simp_all
  also have "\<dots> = b64_loop (concat (s # syms)) chars" using c by simp
  finally show ?case .
qed

text \<open>
  Claim C5. For a stream of symbols of the hex alphabet, and for a stream of symbols of the
  base-64 alphabet and padding symbols, inserting whitespace code points before, between
  and after the symbols does not change the result of decoding.
\<close>

theorem whitespace_insensitive:
  assumes "list_all (list_all isspace_cp) gaps"
  shows "(list_all (\<lambda>s. s \<in> set HEX_EMOJI_16) syms \<longrightarrow>
            decode_hex_emoji (weave gaps syms) enc = decode_hex_emoji (concat syms) enc) \<and>
         (list_all (\<lambda>s. s \<in> set (BASE64_EMOJI_64 @ [PADDING_EMOJI])) syms \<longrightarrow>
            decode_b64_emoji (weave gaps syms) enc = decode_b64_emoji (concat syms) enc)"
  using assms by (simp add: decode_hex_emoji_def decode_b64_emoji_def hex_loop_weave b64_loop_weave)

theorem odd_token_count_fails_witness:
  "list_all (\<lambda>c. [c] \<in> set HEX_EMOJI_16 \<or> isspace [c]) [0x1F604, 0x1F60A, 0x1F606, 0x1F642] \<and>
   even (length (filter (\<lambda>c. [c] \<in> set HEX_EMOJI_16) [0x1F604, 0x1F60A, 0x1F606, 0x1F642])) \<and>
   decode_hex_emoji [0x1F604, 0x1F606, 0x1F642] Utf8 =
     \<lparr>ok = False, data = [], error = OddLengthHex\<rparr> \<and>
   odd (length (filter (\<lambda>c. [c] \<in> set HEX_EMOJI_16) [0x1F604])) \<and>
   \<not> ok (decode_hex_emoji [0x1F604] Utf8)"
proof -
  have h1: "list_all (\<lambda>c. [c] \<in> set HEX_EMOJI_16 \<or> isspace [c]) [0x1F604, 0x1F60A, 0x1F606, 0x1F642]"
    by (simp add: HEX_EMOJI_16_def)
  have h2: "length (filter (\<lambda>c. [c] \<in> set HEX_EMOJI_16) [0x1F604, 0x1F60A, 0x1F606, 0x1F642]) = 4"
    by (simp add: HEX_EMOJI_16_def)
  have h3: "[[0x1F604, 0x1F60A, 0x1F606, 0x1F642] ! 1] \<in> set HEX_EMOJI_16"
    by (simp add: HEX_EMOJI_16_def)
  have h4: "length (filter (\<lambda>c. [c] \<in> set HEX_EMOJI_16) [0x1F604]) = 1"
    by (simp add: HEX_EMOJI_16_def)
  have "\<forall>i < length [0x1F604, 0x1F60A, 0x1F606, 0x1F642 :: nat].
          [[0x1F604, 0x1F60A, 0x1F606, 0x1F642] ! i] \<in> set HEX_EMOJI_16 \<longrightarrow>
          decode_hex_emoji (take i [0x1F604, 0x1F60A, 0x1F606, 0x1F642] @
                            drop (Suc i) [0x1F604, 0x1F60A, 0x1F606, 0x1F642]) Utf8 =
            \<lparr>ok = False, data = [], error = OddLengthHex\<rparr>"
    using odd_token_count_fails[of "[0x1F604, 0x1F60A, 0x1F606, 0x1F642]" Utf8] h1 h2 by simp
  then have "1 < length [0x1F604, 0x1F60A, 0x1F606, 0x1F642 :: nat] \<longrightarrow>
      [[0x1F604, 0x1F60A, 0x1F606, 0x1F642] ! 1] \<in> set HEX_EMOJI_16 \<longrightarrow>
      decode_hex_emoji (take 1 [0x1F604, 0x1F60A, 0x1F606, 0x1F642] @
                            drop (Suc 1) [0x1F604, 0x1F60A, 0x1F606, 0x1F642]) Utf8 =
            \<lparr>ok = False, data = [], error = OddLengthHex\<rparr>"
    by (rule spec)
  then have "decode_hex_emoji (take 1 [0x1F604, 0x1F60A, 0x1F606, 0x1F642] @
                            drop (Suc 1) [0x1F604, 0x1F60A, 0x1F606, 0x1F642]) Utf8 =
            \<lparr>ok = False, data = [], error = OddLengthHex\<rparr>"
    using h3 by simp
  then have a: "decode_hex_emoji [0x1F604, 0x1F606, 0x1F642] Utf8 =
      \<lparr>ok = False, data = [], error = OddLengthHex\<rparr>" by simp
  have b: "\<not> ok (decode_hex_emoji [0x1F604] Utf8)"
    using odd_token_count_fails[of "[0x1F604]" Utf8] h4 by simp
  show ?thesis using a b h1 h2 h4 by simp
qed

theorem unknown_unit_reported_witness:
  "find (\<lambda>c. [c] \<notin> set HEX_EMOJI_16 \<and> \<not> isspace [c]) [0x1F604, 0x78, 0x1F60A] = Some 0x78 \<and>
   decode_hex_emoji [0x1F604, 0x78, 0x1F60A] Utf8 =
     \<lparr>ok = False, data = [], error = UnknownHexEmoji [0x78]\<rparr> \<and>
   spec_units [0x1F600, 0x78] = [[0x1F600], [0x78]] \<and>
   decode_b64_emoji [0x1F600, 0x78] Utf8 =
     \<lparr>ok = False, data = [], error = UnknownB64Emoji [0x78]\<rparr>"
proof -
  have f1: "find (\<lambda>c. [c] \<notin> set HEX_EMOJI_16 \<and> \<not> isspace [c]) [0x1F604, 0x78, 0x1F60A] = Some 0x78"
    by (simp add: HEX_EMOJI_16_def isspace_def isspace_cp_def)
  have "[0x1F600, 0x78] \<notin> set (BASE64_EMOJI_64 @ [PADDING_EMOJI])"
    using b64_pair_symbol[of "0x1F600" "0x78"] by simp
  then have su: "spec_units [0x1F600, 0x78] = [[0x1F600], [0x78]]"
    by simp
  have f2: "find (\<lambda>u. u \<notin> set (BASE64_EMOJI_64 @ [PADDING_EMOJI]) \<and> \<not> isspace u)
      (spec_units [0x1F600, 0x78]) = Some [0x78]"
    unfolding su by (simp add: BASE64_EMOJI_64_def PADDING_EMOJI_def isspace_def isspace_cp_def)
  have a: "decode_hex_emoji [0x1F604, 0x78, 0x1F60A] Utf8 =
      \<lparr>ok = False, data = [], error = UnknownHexEmoji [0x78]\<rparr>"
    using unknown_unit_reported[where s = "[0x1F604, 0x78, 0x1F60A]" and c = "0x78" and enc = Utf8]
      f1 by simp
  have b: "decode_b64_emoji [0x1F600, 0x78] Utf8 =
      \<lparr>ok = False, data = [], error = UnknownB64Emoji [0x78]\<rparr>"
    using unknown_unit_reported[where s = "[0x1F600, 0x78]" and u = "[0x78]" and enc = Utf8]
      f2 by simp
  show ?thesis using f1 su a b by simp
qed

theorem whitespace_insensitive_witness:
  "list_all (list_all isspace_cp) [[0x20], [0xA]] \<and>
   decode_hex_emoji [0x20, 0x1F604, 0xA, 0x1F60A, 0x1F606, 0x1F642] Utf8 =
     \<lparr>ok = True, data = [0x48, 0x69], error = NoMessage\<rparr> \<and>
   decode_b64_emoji [0x1F60E, 0x20, 0x1F603, 0xA, 0x1F600, 0x2639, 0xFE0F] Utf8 =
     \<lparr>ok = True, data = [0x30, 0x30, 0x31], error = NoMessage\<rparr>"
proof -
  have g1: "list_all (list_all isspace_cp) [[0x20], [0xA]]" by (simp add: isspace_cp_def)
  have g2: "list_all (list_all isspace_cp) [[], [0x20], [0xA]]" by (simp add: isspace_cp_def)
  have s1: "list_all (\<lambda>s. s \<in> set HEX_EMOJI_16) [[0x1F604], [0x1F60A], [0x1F606], [0x1F642]]"
    by (simp add: HEX_EMOJI_16_def)
  have s2: "list_all (\<lambda>s. s \<in> set (BASE64_EMOJI_64 @ [PADDING_EMOJI]))
      [[0x1F60E], [0x1F603], [0x1F600], [0x2639, 0xFE0F]]"
    by (simp add: BASE64_EMOJI_64_def)
  have a: "decode_hex_emoji [0x20, 0x1F604, 0xA, 0x1F60A, 0x1F606, 0x1F642] Utf8 =
      \<lparr>ok = True, data = [0x48, 0x69], error = NoMessage\<rparr>"
    using whitespace_insensitive[OF g1, of "[[0x1F604], [0x1F60A], [0x1F606], [0x1F642]]" Utf8]
      s1 decode_hex_hi by simp
  have b: "decode_b64_emoji [0x1F60E, 0x20, 0x1F603, 0xA, 0x1F600, 0x2639, 0xFE0F] Utf8 =
      \<lparr>ok = True, data = [0x30, 0x30, 0x31], error = NoMessage\<rparr>"
    using whitespace_insensitive[OF g2, of "[[0x1F60E], [0x1F603], [0x1F600], [0x2639, 0xFE0F]]" Utf8]
      s2 decode_b64_001 by simp
  show ?thesis using g1 a b by simp
qed


end
